theory Spec2Isabelle
  imports Main "HOL-Library.Word"
begin

unbundle bit_operations_syntax

section \<open>The image checker of task1fh.c\<close>

text \<open>
  A shallow embedding of \<^verbatim>\<open>src/task1fh.c\<close>, a consistency checker for a
  fixed-layout file system image. Every C function is one HOL function of the same
  name. The global arrays are the fields of the record \<open>globals\<close>, passed in and
  returned; the open stream is a value of the record \<open>FILE\<close>, passed in and
  returned; what \<^verbatim>\<open>printf\<close> writes is a list of strings, one per call.
\<close>

subsection \<open>Constants\<close>

type_synonym byte = "8 word"
type_synonym u16 = "16 word"
type_synonym u32 = "32 word"

definition BLOCK_SIZE :: nat where "BLOCK_SIZE = 4096"
definition TOTAL_BLOCKS :: nat where "TOTAL_BLOCKS = 64"
definition SUPERBLOCK_BLOCK_NO :: nat where "SUPERBLOCK_BLOCK_NO = 0"
definition INODE_BITMAP_BLOCK_NO :: nat where "INODE_BITMAP_BLOCK_NO = 1"
definition DATA_BITMAP_BLOCK_NO :: nat where "DATA_BITMAP_BLOCK_NO = 2"
definition INODE_TABLE_START_BLOCK :: nat where "INODE_TABLE_START_BLOCK = 3"
definition INODE_TABLE_BLOCKS :: nat where "INODE_TABLE_BLOCKS = 5"
definition DATA_BLOCK_START :: nat where "DATA_BLOCK_START = 8"
definition INODE_SIZE :: nat where "INODE_SIZE = 256"
definition INODES_PER_BLOCK :: nat where "INODES_PER_BLOCK = BLOCK_SIZE div INODE_SIZE"
definition MAX_INODES :: nat where "MAX_INODES = INODES_PER_BLOCK * INODE_TABLE_BLOCKS"
definition MAX_DATA_BLOCKS :: nat where "MAX_DATA_BLOCKS = TOTAL_BLOCKS - DATA_BLOCK_START"

definition EXIT_SUCCESS :: int where "EXIT_SUCCESS = 0"
definition EXIT_FAILURE :: int where "EXIT_FAILURE = 1"

lemmas layout_defs =
  BLOCK_SIZE_def TOTAL_BLOCKS_def SUPERBLOCK_BLOCK_NO_def INODE_BITMAP_BLOCK_NO_def
  DATA_BITMAP_BLOCK_NO_def INODE_TABLE_START_BLOCK_def INODE_TABLE_BLOCKS_def
  DATA_BLOCK_START_def INODE_SIZE_def INODES_PER_BLOCK_def MAX_INODES_def
  MAX_DATA_BLOCKS_def

subsection \<open>The packed structs\<close>

text \<open>
  Both structs are packed; the fields are read from the bytes of the block in the byte
  order of the machine the program was written for (least significant byte first). The
  \<^verbatim>\<open>reserved\<close> tails are never read by the program and are left out of the
  records. The field \<^verbatim>\<open>size\<close> of an inode is \<open>size'\<close> here.
\<close>

record Superblock =
  magic :: u16
  blockSize :: u32
  totalBlocks :: u32
  inodeBitmapBlock :: u32
  dataBitmapBlock :: u32
  inodeTableStart :: u32
  dataBlockStart :: u32
  inodeSize :: u32
  inodeCount :: u32

record Inode =
  mode :: u32
  uid :: u32
  gid :: u32
  size' :: u32
  atime :: u32
  ctime :: u32
  mtime :: u32
  dtime :: u32
  links :: u32
  blocks :: u32
  direct :: u32
  indirect :: u32
  doubleIndirect :: u32
  tripleIndirect :: u32

text \<open>\<^verbatim>\<open>sizeof(Inode)\<close>: fourteen 4-byte fields and 156 reserved bytes.\<close>

definition sizeof_Inode :: nat where "sizeof_Inode = 14 * 4 + 156"

definition le16 :: "byte list \<Rightarrow> nat \<Rightarrow> u16" where
  "le16 bs k = ucast (bs ! k) OR push_bit 8 (ucast (bs ! (k + 1)))"

definition le32 :: "byte list \<Rightarrow> nat \<Rightarrow> u32" where
  "le32 bs k =
     ucast (bs ! k) OR push_bit 8 (ucast (bs ! (k + 1))) OR
     push_bit 16 (ucast (bs ! (k + 2))) OR push_bit 24 (ucast (bs ! (k + 3)))"

definition Superblock_of_bytes :: "byte list \<Rightarrow> Superblock" where
  "Superblock_of_bytes bs =
     \<lparr>magic = le16 bs 0, blockSize = le32 bs 2, totalBlocks = le32 bs 6,
      inodeBitmapBlock = le32 bs 10, dataBitmapBlock = le32 bs 14,
      inodeTableStart = le32 bs 18, dataBlockStart = le32 bs 22,
      inodeSize = le32 bs 26, inodeCount = le32 bs 30\<rparr>"

definition Inode_of_bytes :: "byte list \<Rightarrow> Inode" where
  "Inode_of_bytes bs =
     \<lparr>mode = le32 bs 0, uid = le32 bs 4, gid = le32 bs 8, size' = le32 bs 12,
      atime = le32 bs 16, ctime = le32 bs 20, mtime = le32 bs 24, dtime = le32 bs 28,
      links = le32 bs 32, blocks = le32 bs 36, direct = le32 bs 40,
      indirect = le32 bs 44, doubleIndirect = le32 bs 48, tripleIndirect = le32 bs 52\<rparr>"

subsection \<open>The global arrays\<close>

record globals =
  dataBitmap :: "bool list"
  dataBlockUsed :: "bool list"
  blockRefCount :: "int list"
  inodeBitmap :: "bool list"
  inodeUsed :: "bool list"

text \<open>Objects of static storage duration start zeroed.\<close>

definition globals0 :: globals where
  "globals0 =
     \<lparr>dataBitmap = replicate MAX_DATA_BLOCKS False,
      dataBlockUsed = replicate MAX_DATA_BLOCKS False,
      blockRefCount = replicate MAX_DATA_BLOCKS 0,
      inodeBitmap = replicate MAX_INODES False,
      inodeUsed = replicate MAX_INODES False\<rparr>"

subsection \<open>The stream\<close>

text \<open>
  The stream of the C library, as far as the program uses it: the bytes of the file, the
  position of the next read, and whether the file can be positioned at all (a pipe
  cannot). \<open>fseek\<close> is the call with \<^verbatim>\<open>SEEK_SET\<close>; \<open>fread\<close> is the
  call for one element of \<open>n\<close> bytes. Both return the status the C functions return,
  which \<open>readBlock\<close> discards. A read that meets the end of the file stores the bytes
  it got at the start of the buffer and leaves the rest of the buffer as it was.
\<close>

record FILE =
  contents :: "byte list"
  pos :: nat
  seekable :: bool

type_synonym filesystem = "string \<Rightarrow> string + byte list \<times> bool"

definition fopen :: "filesystem \<Rightarrow> string \<Rightarrow> string + FILE" where
  "fopen fs path =
     (case fs path of
        Inl err \<Rightarrow> Inl err
      | Inr (bytes, sk) \<Rightarrow> Inr \<lparr>contents = bytes, pos = 0, seekable = sk\<rparr>)"

definition fseek :: "FILE \<Rightarrow> int \<Rightarrow> FILE \<times> int" where
  "fseek fp offset =
     (if seekable fp \<and> 0 \<le> offset then (fp\<lparr>pos := nat offset\<rparr>, 0) else (fp, - 1))"

definition fread :: "byte list \<Rightarrow> nat \<Rightarrow> FILE \<Rightarrow> byte list \<times> FILE \<times> nat" where
  "fread buffer n fp =
     (let got = take n (drop (pos fp) (contents fp))
      in (got @ drop (length got) buffer,
          fp\<lparr>pos := pos fp + length got\<rparr>,
          if length got = n then 1 else 0))"

subsection \<open>readBlock, loadBitmap\<close>

text \<open>
  Line 66 computes the offset \<^verbatim>\<open>blockNum * BLOCK_SIZE\<close> in a 32-bit
  \<^verbatim>\<open>int\<close>. The product is taken in the integers here, which is the value the
  program computes as long as it fits, that is for \<open>- 2\<^sup>1\<^sup>9 \<le> blockNum < 2\<^sup>1\<^sup>9\<close>;
  beyond that the C product overflows and this definition is not a model of it. The
  program passes the block numbers 0 to 7.
\<close>

definition readBlock :: "FILE \<Rightarrow> int \<Rightarrow> byte list \<Rightarrow> FILE \<times> byte list" where
  "readBlock fp blockNum buffer =
     (let (fp1, seek_status) = fseek fp (blockNum * int BLOCK_SIZE);
          (buffer', fp2, items_read) = fread buffer BLOCK_SIZE fp1
      in (fp2, buffer'))"

text \<open>
  \<open>rawBitmap0\<close> is what the local array \<^verbatim>\<open>rawBitmap\<close> holds before the read:
  the array is not initialised.
\<close>

definition loadBitmap ::
  "FILE \<Rightarrow> int \<Rightarrow> bool list \<Rightarrow> nat \<Rightarrow> byte list \<Rightarrow> FILE \<times> bool list" where
  "loadBitmap fp blockNum bitmap count rawBitmap0 =
     (let (fp', rawBitmap) = readBlock fp blockNum rawBitmap0
      in (fp',
          fold (\<lambda>i bm. bm[i := (drop_bit (i mod 8) (rawBitmap ! (i div 8)) AND 1) \<noteq> 0])
            [0..<count] bitmap))"

subsection \<open>Formatting\<close>

text \<open>What \<^verbatim>\<open>%d\<close> and \<^verbatim>\<open>%u\<close> print for a number that is not negative.\<close>

fun decimal :: "nat \<Rightarrow> string" where
  "decimal n =
     (if n < 10 then [''0123456789'' ! n]
      else decimal (n div 10) @ [''0123456789'' ! (n mod 10)])"

declare decimal.simps [simp del]

subsection \<open>Feature 1: the superblock\<close>

text \<open>
  \<open>superblock0\<close> is what the caller's struct holds before the read. The struct has
  4092 bytes and \<open>readBlock\<close> stores a whole block of 4096; the fields are the first
  34 bytes.
\<close>

definition readSuperblock :: "FILE \<Rightarrow> byte list \<Rightarrow> FILE \<times> Superblock \<times> string list" where
  "readSuperblock fp superblock0 =
     (let (fp', raw) = readBlock fp (int SUPERBLOCK_BLOCK_NO) superblock0;
          superblock = Superblock_of_bytes raw
      in (fp', superblock,
          (if magic superblock \<noteq> 0xD34D
           then [''ERROR: Invalid magic number in superblock.\<newline>''] else []) @
          (if unat (blockSize superblock) \<noteq> BLOCK_SIZE
           then [''ERROR: Invalid block size in superblock.\<newline>''] else []) @
          (if unat (totalBlocks superblock) \<noteq> TOTAL_BLOCKS
           then [''ERROR: Invalid total block count in superblock.\<newline>''] else []) @
          (if unat (inodeBitmapBlock superblock) \<noteq> INODE_BITMAP_BLOCK_NO \<or>
              unat (dataBitmapBlock superblock) \<noteq> DATA_BITMAP_BLOCK_NO \<or>
              unat (inodeTableStart superblock) \<noteq> INODE_TABLE_START_BLOCK \<or>
              unat (dataBlockStart superblock) \<noteq> DATA_BLOCK_START
           then [''ERROR: One or more superblock pointers are incorrect.\<newline>''] else []) @
          (if unat (inodeSize superblock) \<noteq> INODE_SIZE
           then [''ERROR: Invalid inode size in superblock.\<newline>''] else []) @
          (if unat (inodeCount superblock) > MAX_INODES
           then [''ERROR: Inode count in superblock exceeds maximum allowed.\<newline>'']
           else [])))"

subsection \<open>The inode scan\<close>

text \<open>
  The body of the loop of \<open>checkInodes\<close> from the line that computes
  \<^verbatim>\<open>isValid\<close> on (lines 122 to 145), for the inode just copied out of the block
  buffer.
\<close>

definition checkInodes_inode ::
  "nat \<Rightarrow> Inode \<Rightarrow> globals \<times> string list \<Rightarrow> globals \<times> string list" where
  "checkInodes_inode i inode = (\<lambda>(g, out).
     (let isValid = (links inode > 0 \<and> dtime inode = 0);
          out1 = out @
            (if inodeBitmap g ! i \<and> \<not> isValid
             then [''ERROR: Inode '' @ decimal i @ '' marked used in bitmap but is invalid.\<newline>'']
             else []);
          out2 = out1 @
            (if \<not> inodeBitmap g ! i \<and> isValid
             then [''ERROR: Inode '' @ decimal i @ '' is valid but not marked used in bitmap.\<newline>'']
             else [])
      in if isValid then
           (let g1 = g\<lparr>inodeUsed := (inodeUsed g)[i := True]\<rparr>
            in if unat (direct inode) \<ge> MAX_DATA_BLOCKS then
                 (g1, out2 @
                   [''ERROR: Inode '' @ decimal i @ '' has invalid direct block '' @
                    decimal (unat (direct inode)) @ ''.\<newline>''])
               else
                 (let d = unat (direct inode);
                      g2 = g1\<lparr>dataBlockUsed := (dataBlockUsed g1)[d := True],
                              blockRefCount := (blockRefCount g1)[d := blockRefCount g1 ! d + 1]\<rparr>
                  in (g2, out2 @
                       (if \<not> dataBitmap g2 ! d
                        then [''ERROR: Inode '' @ decimal i @ '' references block '' @
                              decimal d @ '' not marked in data bitmap.\<newline>'']
                        else []))))
         else (g, out2)))"

text \<open>
  One turn of the loop: the block of the inode is read again, the inode is copied out
  of it, and the checks run. \<open>blockBuffer\<close> is the local array, which keeps its
  contents from one turn to the next.
\<close>

definition checkInodes_body ::
  "nat \<Rightarrow> FILE \<times> byte list \<times> globals \<times> string list \<Rightarrow>
     FILE \<times> byte list \<times> globals \<times> string list" where
  "checkInodes_body i = (\<lambda>(fp, blockBuffer, g, out).
     (let blockNum = INODE_TABLE_START_BLOCK + (i * INODE_SIZE) div BLOCK_SIZE;
          offset = (i * INODE_SIZE) mod BLOCK_SIZE;
          (fp', blockBuffer') = readBlock fp (int blockNum) blockBuffer;
          inode = Inode_of_bytes (take sizeof_Inode (drop offset blockBuffer'));
          (g', out') = checkInodes_inode i inode (g, out)
      in (fp', blockBuffer', g', out')))"

definition checkInodes ::
  "FILE \<Rightarrow> byte list \<Rightarrow> globals \<Rightarrow> FILE \<times> byte list \<times> globals \<times> string list" where
  "checkInodes fp blockBuffer0 g =
     fold checkInodes_body [0..<MAX_INODES] (fp, blockBuffer0, g, [])"

subsection \<open>Feature 2: the data bitmap\<close>

definition checkDataBitmap_body :: "globals \<Rightarrow> nat \<Rightarrow> string list \<Rightarrow> string list" where
  "checkDataBitmap_body g i out =
     out @
     (if dataBitmap g ! i \<and> \<not> dataBlockUsed g ! i
      then [''ERROR: Data block '' @ decimal i @ '' marked used in bitmap but not referenced.\<newline>'']
      else []) @
     (if \<not> dataBitmap g ! i \<and> dataBlockUsed g ! i
      then [''ERROR: Data block '' @ decimal i @ '' is used but not marked in bitmap.\<newline>'']
      else []) @
     (if blockRefCount g ! i > 1
      then [''ERROR: Data block '' @ decimal i @ '' is referenced by multiple inodes.\<newline>'']
      else [])"

definition checkDataBitmap :: "globals \<Rightarrow> string list" where
  "checkDataBitmap g = fold (checkDataBitmap_body g) [0..<MAX_DATA_BLOCKS] []"

subsection \<open>Feature 3: the inode bitmap\<close>

definition checkInodeBitmap_body :: "globals \<Rightarrow> nat \<Rightarrow> int \<times> string list \<Rightarrow> int \<times> string list" where
  "checkInodeBitmap_body g i = (\<lambda>(errorCount, out).
     (let (errorCount1, out1) =
            (if inodeBitmap g ! i \<and> \<not> inodeUsed g ! i
             then (errorCount + 1,
                   out @ [''ERROR: Inode '' @ decimal i @ '' marked used but not actually used.\<newline>''])
             else (errorCount, out))
      in if \<not> inodeBitmap g ! i \<and> inodeUsed g ! i
         then (errorCount1 + 1,
               out1 @ [''ERROR: Inode '' @ decimal i @ '' is used but not marked in bitmap.\<newline>''])
         else (errorCount1, out1)))"

definition checkInodeBitmap :: "globals \<Rightarrow> string list" where
  "checkInodeBitmap g =
     (let (errorCount, out) = fold (checkInodeBitmap_body g) [0..<MAX_INODES] (0, [])
      in if errorCount = 0 then out @ [''Inode bitmap is consistent.\<newline>''] else out)"

subsection \<open>Feature 4: duplicate blocks\<close>

definition checkDuplicateBlocks_body ::
  "globals \<Rightarrow> nat \<Rightarrow> bool \<times> string list \<Rightarrow> bool \<times> string list" where
  "checkDuplicateBlocks_body g i = (\<lambda>(duplicateFound, out).
     if blockRefCount g ! i > 1
     then (True,
           out @ [''ERROR: Data block '' @ decimal i @ '' is referenced by multiple inodes.\<newline>''])
     else (duplicateFound, out))"

definition checkDuplicateBlocks :: "globals \<Rightarrow> string list" where
  "checkDuplicateBlocks g =
     (let (duplicateFound, out) =
            fold (checkDuplicateBlocks_body g) [0..<MAX_DATA_BLOCKS] (False, [])
      in if \<not> duplicateFound
         then out @ [''No duplicate data block references found.\<newline>''] else out)"

subsection \<open>Feature 5: bad blocks\<close>

text \<open>
  The body of the loop of \<open>checkBadBlocks\<close> from the line that computes
  \<^verbatim>\<open>isValid\<close> on (lines 236 to 259).
\<close>

definition checkBadBlocks_inode ::
  "nat \<Rightarrow> Inode \<Rightarrow> bool \<times> string list \<Rightarrow> bool \<times> string list" where
  "checkBadBlocks_inode i inode = (\<lambda>(badBlockFound, out).
     (let isValid = (links inode > 0 \<and> dtime inode = 0)
      in if \<not> isValid then (badBlockFound, out)
         else
           (let (b1, out1) =
                  (if unat (direct inode) \<ge> MAX_DATA_BLOCKS
                   then (True, out @
                          [''ERROR: Inode '' @ decimal i @ '' has invalid direct block '' @
                           decimal (unat (direct inode)) @ ''.\<newline>''])
                   else (badBlockFound, out));
                (b2, out2) =
                  (if unat (indirect inode) \<ge> MAX_DATA_BLOCKS \<and> indirect inode \<noteq> 0
                   then (True, out1 @
                          [''ERROR: Inode '' @ decimal i @ '' has invalid single indirect block '' @
                           decimal (unat (indirect inode)) @ ''.\<newline>''])
                   else (b1, out1));
                (b3, out3) =
                  (if unat (doubleIndirect inode) \<ge> MAX_DATA_BLOCKS \<and> doubleIndirect inode \<noteq> 0
                   then (True, out2 @
                          [''ERROR: Inode '' @ decimal i @ '' has invalid double indirect block '' @
                           decimal (unat (doubleIndirect inode)) @ ''.\<newline>''])
                   else (b2, out2))
            in if unat (tripleIndirect inode) \<ge> MAX_DATA_BLOCKS \<and> tripleIndirect inode \<noteq> 0
               then (True, out3 @
                      [''ERROR: Inode '' @ decimal i @ '' has invalid triple indirect block '' @
                       decimal (unat (tripleIndirect inode)) @ ''.\<newline>''])
               else (b3, out3))))"

definition checkBadBlocks_body ::
  "nat \<Rightarrow> FILE \<times> byte list \<times> bool \<times> string list \<Rightarrow> FILE \<times> byte list \<times> bool \<times> string list" where
  "checkBadBlocks_body i = (\<lambda>(fp, blockBuffer, badBlockFound, out).
     (let blockNum = INODE_TABLE_START_BLOCK + (i * INODE_SIZE) div BLOCK_SIZE;
          offset = (i * INODE_SIZE) mod BLOCK_SIZE;
          (fp', blockBuffer') = readBlock fp (int blockNum) blockBuffer;
          inode = Inode_of_bytes (take sizeof_Inode (drop offset blockBuffer'));
          (badBlockFound', out') = checkBadBlocks_inode i inode (badBlockFound, out)
      in (fp', blockBuffer', badBlockFound', out')))"

definition checkBadBlocks :: "FILE \<Rightarrow> byte list \<Rightarrow> FILE \<times> string list" where
  "checkBadBlocks fp blockBuffer0 =
     (let (fp', blockBuffer, badBlockFound, out) =
            fold checkBadBlocks_body [0..<MAX_INODES] (fp, blockBuffer0, False, [])
      in (fp', if \<not> badBlockFound
               then out @ [''No invalid block references found in inodes.\<newline>'']
               else out))"

subsection \<open>main\<close>

text \<open>
  \<open>argv\<close> holds the program's name and its arguments, so \<^verbatim>\<open>argc\<close> is its
  length. \<open>fs\<close> says for every path whether it opens and with what bytes. \<open>uninit k\<close>
  is what the \<open>k\<close>-th local buffer of the run holds before anything is stored in it.
\<close>

record outcome =
  exit_code :: int
  stdout :: "string list"
  stderr :: "string list"

definition main :: "string list \<Rightarrow> filesystem \<Rightarrow> (nat \<Rightarrow> byte list) \<Rightarrow> outcome" where
  "main argv fs uninit =
     (if length argv \<noteq> 2 then
        \<lparr>exit_code = EXIT_FAILURE, stdout = [],
         stderr = [''Usage: '' @ (case argv of [] \<Rightarrow> ''(null)'' | a # _ \<Rightarrow> a) @
                   '' <vsfs.img>\<newline>'']\<rparr>
      else
        (case fopen fs (argv ! 1) of
           Inl err \<Rightarrow>
             \<lparr>exit_code = EXIT_FAILURE, stdout = [],
              stderr = [''Failed to open image file: '' @ err @ ''\<newline>'']\<rparr>
         | Inr fp \<Rightarrow>
             (let (fp1, superblock, out1) = readSuperblock fp (uninit 0);
                  (fp2, ib) = loadBitmap fp1 (int INODE_BITMAP_BLOCK_NO)
                                (inodeBitmap globals0) MAX_INODES (uninit 1);
                  (fp3, db) = loadBitmap fp2 (int DATA_BITMAP_BLOCK_NO)
                                (dataBitmap globals0) MAX_DATA_BLOCKS (uninit 2);
                  g = globals0\<lparr>inodeBitmap := ib, dataBitmap := db\<rparr>;
                  (fp4, blockBuffer, g', out2) = checkInodes fp3 (uninit 3) g;
                  out3 = checkInodeBitmap g';
                  out4 = checkDataBitmap g';
                  out5 = checkDuplicateBlocks g';
                  (fp5, out6) = checkBadBlocks fp4 (uninit 4)
              in \<lparr>exit_code = EXIT_SUCCESS,
                  stdout =
                    out1 @ [''Superblock validation completed.\<newline>''] @
                    [''Bitmaps loaded successfully.\<newline>''] @
                    out2 @ [''Inode checks completed.\<newline>''] @
                    out3 @ out4 @ [''Bitmap consistency checks completed.\<newline>''] @
                    out5 @ out6 @ [''Block reference checks completed.\<newline>''],
                  stderr = []\<rparr>)))"

section \<open>Notions of the statements\<close>

text \<open>
  The part of an image the checker works on is blocks 0 to 7: the superblock, the two
  bitmaps and the inode table. A stream is \<open>metadata_readable\<close> when it can be
  positioned and holds these blocks in full. \<open>block_of img k\<close> is block \<open>k\<close> of the
  bytes \<open>img\<close>, and \<open>inode_at img i\<close> the inode decoded from slot \<open>i\<close> of the
  inode table of \<open>img\<close>.
\<close>

definition metadata_readable :: "FILE \<Rightarrow> bool" where
  "metadata_readable fp =
     (seekable fp \<and> DATA_BLOCK_START * BLOCK_SIZE \<le> length (contents fp))"

definition block_of :: "byte list \<Rightarrow> nat \<Rightarrow> byte list" where
  "block_of img k = take BLOCK_SIZE (drop (k * BLOCK_SIZE) img)"

definition inode_at :: "byte list \<Rightarrow> nat \<Rightarrow> Inode" where
  "inode_at img i =
     Inode_of_bytes
       (take sizeof_Inode (drop (INODE_TABLE_START_BLOCK * BLOCK_SIZE + i * INODE_SIZE) img))"

text \<open>A finding is a line that starts with \<^verbatim>\<open>ERROR:\<close>.\<close>

definition is_error_line :: "string \<Rightarrow> bool" where
  "is_error_line l = (take 6 l = ''ERROR:'')"

text \<open>
  What Pass 5 reports for one inode, in the words of the specification: only an inode
  with \<open>links > 0\<close> and \<open>dtime = 0\<close> is looked at; each of its four pointers is
  checked against the range \<open>[0, MAX_DATA_BLOCKS)\<close>, where 0 in one of the three
  indirect pointers stands for no block and is not reported.
\<close>

definition bad_pointer_findings :: "nat \<Rightarrow> Inode \<Rightarrow> string list" where
  "bad_pointer_findings i inode =
     (if 0 < links inode \<and> dtime inode = 0 then
        (if unat (direct inode) < MAX_DATA_BLOCKS then []
         else [''ERROR: Inode '' @ decimal i @ '' has invalid direct block '' @
               decimal (unat (direct inode)) @ ''.\<newline>'']) @
        (if indirect inode = 0 \<or> unat (indirect inode) < MAX_DATA_BLOCKS then []
         else [''ERROR: Inode '' @ decimal i @ '' has invalid single indirect block '' @
               decimal (unat (indirect inode)) @ ''.\<newline>'']) @
        (if doubleIndirect inode = 0 \<or> unat (doubleIndirect inode) < MAX_DATA_BLOCKS then []
         else [''ERROR: Inode '' @ decimal i @ '' has invalid double indirect block '' @
               decimal (unat (doubleIndirect inode)) @ ''.\<newline>'']) @
        (if tripleIndirect inode = 0 \<or> unat (tripleIndirect inode) < MAX_DATA_BLOCKS then []
         else [''ERROR: Inode '' @ decimal i @ '' has invalid triple indirect block '' @
               decimal (unat (tripleIndirect inode)) @ ''.\<newline>''])
      else [])"

text \<open>
  Packing a boolean vector into bytes, in the words of the specification: entry \<open>i\<close>
  is bit \<open>i mod 8\<close> of byte \<open>i div 8\<close>, the least significant bit first.
\<close>

definition pack_bits :: "bool list \<Rightarrow> byte list" where
  "pack_bits v =
     map (\<lambda>k. horner_sum of_bool 2 (take 8 (drop (8 * k) v))) [0..<(length v + 7) div 8]"

text \<open>Two streams that can be read and agree on blocks 0 to 7.\<close>

definition same_metadata :: "FILE \<Rightarrow> FILE \<Rightarrow> bool" where
  "same_metadata fp1 fp2 =
     (metadata_readable fp1 \<and> metadata_readable fp2 \<and>
      take (DATA_BLOCK_START * BLOCK_SIZE) (contents fp1) =
      take (DATA_BLOCK_START * BLOCK_SIZE) (contents fp2))"

text \<open>
  The findings of Pass 2 and of Pass 3 are told apart by their text: the fixed start of the
  line, the decimal number of the block or inode, and the fixed rest. \<open>lines_before P Q\<close>
  says of a list of lines that every \<open>P\<close> line comes before every \<open>Q\<close> line: no
  \<open>P\<close> line follows a \<open>Q\<close> line.
\<close>

definition is_digit :: "char \<Rightarrow> bool" where
  "is_digit c = (c \<in> set ''0123456789'')"

definition is_pass2_finding :: "string \<Rightarrow> bool" where
  "is_pass2_finding l =
     (take 18 l = ''ERROR: Data block '' \<and>
      dropWhile is_digit (drop 18 l) \<in> set
        ['' marked used in bitmap but not referenced.\<newline>'',
         '' is used but not marked in bitmap.\<newline>'',
         '' is referenced by multiple inodes.\<newline>''])"

definition is_pass3_finding :: "string \<Rightarrow> bool" where
  "is_pass3_finding l =
     (take 13 l = ''ERROR: Inode '' \<and>
      dropWhile is_digit (drop 13 l) \<in> set
        ['' marked used but not actually used.\<newline>'',
         '' is used but not marked in bitmap.\<newline>''])"

text \<open>
  The two findings that only Pass 2 prints. The third line of Pass 2, for a block
  referenced by multiple inodes, is printed once more by Pass 4.
\<close>

definition is_pass2_own_finding :: "string \<Rightarrow> bool" where
  "is_pass2_own_finding l =
     (take 18 l = ''ERROR: Data block '' \<and>
      dropWhile is_digit (drop 18 l) \<in> set
        ['' marked used in bitmap but not referenced.\<newline>'',
         '' is used but not marked in bitmap.\<newline>''])"

primrec lines_before :: "(string \<Rightarrow> bool) \<Rightarrow> (string \<Rightarrow> bool) \<Rightarrow> string list \<Rightarrow> bool" where
  "lines_before P Q [] = True"
| "lines_before P Q (l # ls) = (\<not> (Q l \<and> list_ex P ls) \<and> lines_before P Q ls)"

text \<open>Inputs of the examples.\<close>

definition empty_file :: FILE where
  "empty_file = \<lparr>contents = [], pos = 0, seekable = True\<rparr>"

definition fs_empty :: filesystem where
  "fs_empty path =
     (if path = ''empty.img'' then Inr ([], True) else Inl ''No such file or directory'')"

definition uninit_AA :: "nat \<Rightarrow> byte list" where
  "uninit_AA k = replicate BLOCK_SIZE 0xAA"

text \<open>A superblock whose two bitmap block numbers are both 9, all else as expected.\<close>

definition two_pointers_wrong :: "byte list" where
  "two_pointers_wrong =
     [0x4D, 0xD3,  0, 0x10, 0, 0,  64, 0, 0, 0,  9, 0, 0, 0,  9, 0, 0, 0,
      3, 0, 0, 0,  8, 0, 0, 0,  0, 1, 0, 0,  80, 0, 0, 0] @ replicate 4062 0"

definition file_two_pointers_wrong :: FILE where
  "file_two_pointers_wrong = \<lparr>contents = two_pointers_wrong, pos = 0, seekable = True\<rparr>"

text \<open>
  An image with zeroed superblock and bitmaps whose inodes 0 and 1 are valid and both
  have the direct block 10; inode 1 has the single indirect block 99.
\<close>

definition inode_a :: "byte list" where
  "inode_a = replicate 32 0 @ [1, 0, 0, 0,  0, 0, 0, 0,  10, 0, 0, 0] @ replicate 212 0"

definition inode_b :: "byte list" where
  "inode_b = replicate 32 0 @ [1, 0, 0, 0,  0, 0, 0, 0,  10, 0, 0, 0,  99, 0, 0, 0] @ replicate 208 0"

definition image_shared_block :: "byte list" where
  "image_shared_block =
     replicate (3 * 4096) 0 @ inode_a @ inode_b @ replicate (5 * 4096 - 2 * 256) 0"

definition file_shared_block :: FILE where
  "file_shared_block = \<lparr>contents = image_shared_block, pos = 0, seekable = True\<rparr>"

text \<open>A one-block file that packs a vector of three entries, followed by ones.\<close>

definition file_packed_bits :: FILE where
  "file_packed_bits =
     \<lparr>contents = pack_bits ([True, False, True] @ replicate (8 * BLOCK_SIZE - 3) True),
      pos = 0, seekable = True\<rparr>"

text \<open>
  Two file systems whose image is the one above in blocks 0 to 7 and differs in every
  byte of blocks 8 to 63.
\<close>

definition fs_data_zeros :: filesystem where
  "fs_data_zeros path =
     (if path = ''vsfs.img''
      then Inr (image_shared_block @ replicate (56 * 4096) 0, True)
      else Inl ''No such file or directory'')"

definition fs_data_ones :: filesystem where
  "fs_data_ones path =
     (if path = ''vsfs.img''
      then Inr (image_shared_block @ replicate (56 * 4096) 0xFF, True)
      else Inl ''No such file or directory'')"

text \<open>The zeroed arrays with two references counted for block 10.\<close>

definition globals_block10_twice :: globals where
  "globals_block10_twice = globals0\<lparr>blockRefCount := (blockRefCount globals0)[10 := 2]\<rparr>"

section \<open>Reading the metadata blocks\<close>

lemma readBlock_full:
  assumes "seekable fp" "(k + 1) * BLOCK_SIZE \<le> length (contents fp)"
  shows "readBlock fp (int k) buf =
           (fp\<lparr>pos := (k + 1) * BLOCK_SIZE\<rparr>, block_of (contents fp) k @ drop BLOCK_SIZE buf)"
proof -
  have "nat (int k * int BLOCK_SIZE) = k * BLOCK_SIZE"
    by (simp add: nat_mult_distrib)
  moreover have "length (take BLOCK_SIZE (drop (k * BLOCK_SIZE) (contents fp))) = BLOCK_SIZE"
    using assms(2) by simp
  ultimately show ?thesis
    using assms(1) by (simp add: readBlock_def fseek_def fread_def block_of_def Let_def)
qed

lemma slot_div: "(i * INODE_SIZE) div BLOCK_SIZE = i div 16"
  unfolding layout_defs by simp

lemma slot_mod: "(i * INODE_SIZE) mod BLOCK_SIZE = 256 * (i mod 16)"
proof -
  have "256 * (i mod 16) = (256 * i) mod (256 * 16)" by (rule mult_mod_right)
  then show ?thesis unfolding layout_defs by (simp add: mult.commute)
qed

lemma slot_fits:
  assumes "i < MAX_INODES"
  shows "(i * INODE_SIZE) mod BLOCK_SIZE + sizeof_Inode \<le> BLOCK_SIZE"
proof -
  have "i mod 16 \<le> 15" by simp
  then have "256 * (i mod 16) + 212 \<le> 4096" by simp
  then show ?thesis unfolding slot_mod by (simp add: sizeof_Inode_def BLOCK_SIZE_def)
qed

lemma slot_block:
  assumes "i < MAX_INODES"
  shows "INODE_TABLE_START_BLOCK + (i * INODE_SIZE) div BLOCK_SIZE < DATA_BLOCK_START"
proof -
  from assms have "i div 16 \<le> 4" by (simp add: layout_defs)
  then show ?thesis unfolding slot_div by (simp add: layout_defs)
qed

lemma slot_address:
  "(INODE_TABLE_START_BLOCK + (i * INODE_SIZE) div BLOCK_SIZE) * BLOCK_SIZE +
     (i * INODE_SIZE) mod BLOCK_SIZE = INODE_TABLE_START_BLOCK * BLOCK_SIZE + i * INODE_SIZE"
proof -
  have "(i * INODE_SIZE) div BLOCK_SIZE * BLOCK_SIZE + (i * INODE_SIZE) mod BLOCK_SIZE
          = i * INODE_SIZE" by (rule div_mult_mod_eq)
  then show ?thesis by (simp add: add_mult_distrib)
qed

lemma block_complete:
  assumes "k < DATA_BLOCK_START" "DATA_BLOCK_START * BLOCK_SIZE \<le> length img"
  shows "(k + 1) * BLOCK_SIZE \<le> length img"
proof -
  from assms(1) have "k + 1 \<le> DATA_BLOCK_START" by simp
  then have "(k + 1) * BLOCK_SIZE \<le> DATA_BLOCK_START * BLOCK_SIZE"
    by (rule mult_le_mono1)
  then show ?thesis using assms(2) by (rule le_trans)
qed

lemma readBlock_metadata:
  assumes "metadata_readable fp" "k < DATA_BLOCK_START"
  shows "readBlock fp (int k) buf =
           (fp\<lparr>pos := (k + 1) * BLOCK_SIZE\<rparr>, block_of (contents fp) k @ drop BLOCK_SIZE buf)"
  using assms block_complete [of k "contents fp"]
  by (intro readBlock_full) (auto simp: metadata_readable_def)

lemma metadata_readable_pos [simp]:
  "metadata_readable (fp\<lparr>pos := p\<rparr>) = metadata_readable fp"
  by (simp add: metadata_readable_def)

lemma length_block_of:
  "(k + 1) * BLOCK_SIZE \<le> length img \<Longrightarrow> length (block_of img k) = BLOCK_SIZE"
  by (simp add: block_of_def)

lemma take_drop_block:
  assumes "off + n \<le> BLOCK_SIZE" "(k + 1) * BLOCK_SIZE \<le> length img"
  shows "take n (drop off (block_of img k @ rest)) = take n (drop (k * BLOCK_SIZE + off) img)"
proof -
  have len: "length (block_of img k) = BLOCK_SIZE"
    using assms(2) by (rule length_block_of)
  have "take n (drop off (block_of img k @ rest)) = take n (drop off (block_of img k))"
    using assms(1) len by simp
  also have "\<dots> = take n (take (BLOCK_SIZE - off) (drop (off + k * BLOCK_SIZE) img))"
    by (simp add: block_of_def drop_take)
  also have "\<dots> = take n (drop (k * BLOCK_SIZE + off) img)"
    using assms(1) by (simp add: min_def add.commute)
  finally show ?thesis .
qed

lemma slot_in_block:
  assumes "i < MAX_INODES" "DATA_BLOCK_START * BLOCK_SIZE \<le> length img"
  shows "Inode_of_bytes (take sizeof_Inode (drop ((i * INODE_SIZE) mod BLOCK_SIZE)
            (block_of img (INODE_TABLE_START_BLOCK + (i * INODE_SIZE) div BLOCK_SIZE) @ rest))) =
         inode_at img i"
  unfolding inode_at_def
  using take_drop_block [OF slot_fits [OF assms(1)]
      block_complete [OF slot_block [OF assms(1)] assms(2)]]
  by (simp only: slot_address)

section \<open>The exit status\<close>

text \<open>
  C8. With exactly one argument and a file that opens, the program exits with status
  zero, whatever it reports. It exits with a status other than zero in two cases only: the
  argument count is wrong, and the usage line goes to the error stream; or the file does
  not open, and the system's message goes to the error stream.
\<close>

theorem main_exit_code:
  "exit_code (main argv fs uninit) =
     (if length argv = 2 \<and> \<not> isl (fopen fs (argv ! 1)) then 0 else 1) \<and>
   stderr (main argv fs uninit) =
     (if length argv \<noteq> 2
      then [''Usage: '' @ (case argv of [] \<Rightarrow> ''(null)'' | a # _ \<Rightarrow> a) @ '' <vsfs.img>\<newline>'']
      else case fopen fs (argv ! 1) of
             Inl err \<Rightarrow> [''Failed to open image file: '' @ err @ ''\<newline>'']
           | Inr fp \<Rightarrow> []) \<and>
   (exit_code (main argv fs uninit) \<noteq> 0 \<longrightarrow> stdout (main argv fs uninit) = [])"
  by (simp add: main_def EXIT_SUCCESS_def EXIT_FAILURE_def Let_def
      split: sum.splits prod.splits)

theorem main_exit_code_witness:
  "exit_code (main [''fsck'', ''empty.img''] fs_empty uninit_AA) = 0 \<and>
   stderr (main [''fsck'', ''empty.img''] fs_empty uninit_AA) = [] \<and>
   exit_code (main [''fsck'', ''missing.img''] fs_empty uninit_AA) = 1 \<and>
   stderr (main [''fsck'', ''missing.img''] fs_empty uninit_AA) =
     [''Failed to open image file: No such file or directory\<newline>''] \<and>
   stdout (main [''fsck'', ''missing.img''] fs_empty uninit_AA) = [] \<and>
   exit_code (main [''fsck''] fs_empty uninit_AA) = 1 \<and>
   stderr (main [''fsck''] fs_empty uninit_AA) = [''Usage: fsck <vsfs.img>\<newline>'']"
  using main_exit_code [of "[''fsck'', ''empty.img'']" fs_empty uninit_AA]
    main_exit_code [of "[''fsck'', ''missing.img'']" fs_empty uninit_AA]
    main_exit_code [of "[''fsck'']" fs_empty uninit_AA]
  by (simp add: fopen_def fs_empty_def)

section \<open>readBlock has no failure\<close>

text \<open>In the range of the block numbers the 32-bit product of line 66 is the product.\<close>

lemma offset_in_int32:
  assumes "- (2 ^ 19) \<le> blockNum" "blockNum < 2 ^ 19"
  shows "sint (word_of_int blockNum * word_of_int (int BLOCK_SIZE) :: 32 word) =
           blockNum * int BLOCK_SIZE"
proof -
  have "- (2 ^ 31) \<le> blockNum * 4096" "blockNum * 4096 < 2 ^ 31"
    using assms by simp_all
  then have s: "signed_take_bit 31 (blockNum * 4096) = blockNum * 4096"
    by (simp add: signed_take_bit_int_eq_self)
  have "sint (word_of_int (blockNum * 4096) :: 32 word) = signed_take_bit (32 - 1) (blockNum * 4096)"
    using sint_sbintrunc' [where 'a = 32, of "blockNum * 4096"] by simp
  then have "sint (word_of_int (blockNum * 4096) :: 32 word) = blockNum * 4096"
    using s by simp
  moreover have "(word_of_int blockNum * word_of_int (int BLOCK_SIZE) :: 32 word) =
      word_of_int (blockNum * 4096)"
    by (simp add: BLOCK_SIZE_def)
  ultimately show ?thesis
    by (simp only: BLOCK_SIZE_def of_nat_numeral)
qed

text \<open>
  C7, as amended. For every block index whose offset fits the 32-bit \<^verbatim>\<open>int\<close>
  of line 66 (\<open>- 2\<^sup>1\<^sup>9 \<le> blockNum < 2\<^sup>1\<^sup>9\<close>; the program passes 0 to 7),
  \<open>readBlock\<close> returns a buffer and never fails: it discards the status of the seek
  and of the read. When the seek fails (the stream cannot be positioned, or the offset is
  negative) the read takes place at the position the stream is at; when the read gets
  fewer bytes than a block, the buffer holds the bytes read, followed by what it held
  before from there on. The offset is the 32-bit product of line 66.
\<close>

theorem readBlock_returns_buffer:
  assumes "- (2 ^ 19) \<le> blockNum" "blockNum < 2 ^ 19"
  shows "readBlock fp blockNum buffer =
     (let offset = sint (word_of_int blockNum * word_of_int (int BLOCK_SIZE) :: 32 word);
          start = (if seekable fp \<and> 0 \<le> offset then nat offset else pos fp);
          got = take BLOCK_SIZE (drop start (contents fp))
      in (fp\<lparr>pos := start + length got\<rparr>, got @ drop (length got) buffer))"
  unfolding offset_in_int32 [OF assms]
  by (simp add: readBlock_def fseek_def fread_def Let_def)

theorem readBlock_returns_buffer_witness:
  "- (2 ^ 19) \<le> (0 :: int) \<and> (0 :: int) < 2 ^ 19 \<and>
   readBlock empty_file 0 (uninit_AA 0) = (empty_file, uninit_AA 0) \<and>
   - (2 ^ 19) \<le> (- 1 :: int) \<and> (- 1 :: int) < 2 ^ 19 \<and>
   readBlock file_two_pointers_wrong (- 1) (uninit_AA 0) =
     (file_two_pointers_wrong\<lparr>pos := BLOCK_SIZE\<rparr>, two_pointers_wrong)"
proof -
  have a: "- (2 ^ 19) \<le> (0 :: int)" "(0 :: int) < 2 ^ 19" by simp_all
  have b: "- (2 ^ 19) \<le> (- 1 :: int)" "(- 1 :: int) < 2 ^ 19" by simp_all
  have l: "length two_pointers_wrong = BLOCK_SIZE"
    by (simp add: two_pointers_wrong_def BLOCK_SIZE_def)
  have u: "length (uninit_AA 0) = BLOCK_SIZE" by (simp add: uninit_AA_def)
  from readBlock_returns_buffer [OF a, of empty_file "uninit_AA 0"]
  have x: "readBlock empty_file 0 (uninit_AA 0) = (empty_file, uninit_AA 0)"
    unfolding offset_in_int32 [OF a] by (simp add: empty_file_def)
  from readBlock_returns_buffer [OF b, of file_two_pointers_wrong "uninit_AA 0"]
  have y: "readBlock file_two_pointers_wrong (- 1) (uninit_AA 0) =
     (file_two_pointers_wrong\<lparr>pos := BLOCK_SIZE\<rparr>, two_pointers_wrong)"
    unfolding offset_in_int32 [OF b] by (simp add: file_two_pointers_wrong_def l u)
  from x y show ?thesis by simp
qed

text \<open>
  C7, as stated, fails on an empty file: the read of block 0 gets no byte and returns 0
  items, \<open>readBlock\<close> returns with the buffer as it was, and the run ends with
  status zero and nothing on the error stream.
\<close>

theorem readBlock_short_read_counterexample:
  "snd (snd (fread (uninit_AA 0) BLOCK_SIZE (fst (fseek empty_file (0 * int BLOCK_SIZE))))) = 0 \<and>
   readBlock empty_file 0 (uninit_AA 0) = (empty_file, uninit_AA 0) \<and>
   fopen fs_empty ''empty.img'' = Inr empty_file \<and>
   exit_code (main [''fsck'', ''empty.img''] fs_empty uninit_AA) = EXIT_SUCCESS \<and>
   stderr (main [''fsck'', ''empty.img''] fs_empty uninit_AA) = []"
  by (simp add: readBlock_def fseek_def fread_def empty_file_def fopen_def fs_empty_def
      main_def Let_def BLOCK_SIZE_def split: prod.splits)


section \<open>The superblock checks\<close>

lemma readSuperblock_unfold:
  "readSuperblock fp superblock0 =
     (fst (readBlock fp 0 superblock0),
      Superblock_of_bytes (snd (readBlock fp 0 superblock0)),
      (let superblock = Superblock_of_bytes (snd (readBlock fp 0 superblock0)) in
          (if magic superblock \<noteq> 0xD34D
           then [''ERROR: Invalid magic number in superblock.\<newline>''] else []) @
          (if unat (blockSize superblock) \<noteq> 4096
           then [''ERROR: Invalid block size in superblock.\<newline>''] else []) @
          (if unat (totalBlocks superblock) \<noteq> 64
           then [''ERROR: Invalid total block count in superblock.\<newline>''] else []) @
          (if unat (inodeBitmapBlock superblock) \<noteq> 1 \<or>
              unat (dataBitmapBlock superblock) \<noteq> 2 \<or>
              unat (inodeTableStart superblock) \<noteq> 3 \<or>
              unat (dataBlockStart superblock) \<noteq> 8
           then [''ERROR: One or more superblock pointers are incorrect.\<newline>''] else []) @
          (if unat (inodeSize superblock) \<noteq> 256
           then [''ERROR: Invalid inode size in superblock.\<newline>''] else []) @
          (if unat (inodeCount superblock) > 80
           then [''ERROR: Inode count in superblock exceeds maximum allowed.\<newline>'']
           else [])))"
  unfolding readSuperblock_def layout_defs
  by (simp add: case_prod_beta Let_def del: One_nat_def)

text \<open>
  C3, as amended. The superblock validation makes six checks, none of which depends on
  another: magic, block size, total blocks, the four block numbers (inode bitmap, data
  bitmap, inode table start, data block start) taken together, inode record size, and
  inode count above the maximum. Each failing check yields exactly one finding, a fixed
  line that names what is wrong and carries no value; the four block numbers share one
  finding, however many of them are wrong.
\<close>

theorem readSuperblock_six_checks:
  "(case readSuperblock fp superblock0 of (fp', sb, findings) \<Rightarrow>
     sb = Superblock_of_bytes (snd (readBlock fp 0 superblock0)) \<and>
     (''ERROR: Invalid magic number in superblock.\<newline>'' \<in> set findings
        \<longleftrightarrow> magic sb \<noteq> 0xD34D) \<and>
     (''ERROR: Invalid block size in superblock.\<newline>'' \<in> set findings
        \<longleftrightarrow> unat (blockSize sb) \<noteq> 4096) \<and>
     (''ERROR: Invalid total block count in superblock.\<newline>'' \<in> set findings
        \<longleftrightarrow> unat (totalBlocks sb) \<noteq> 64) \<and>
     (''ERROR: One or more superblock pointers are incorrect.\<newline>'' \<in> set findings
        \<longleftrightarrow> unat (inodeBitmapBlock sb) \<noteq> 1 \<or> unat (dataBitmapBlock sb) \<noteq> 2 \<or>
            unat (inodeTableStart sb) \<noteq> 3 \<or> unat (dataBlockStart sb) \<noteq> 8) \<and>
     (''ERROR: Invalid inode size in superblock.\<newline>'' \<in> set findings
        \<longleftrightarrow> unat (inodeSize sb) \<noteq> 256) \<and>
     (''ERROR: Inode count in superblock exceeds maximum allowed.\<newline>'' \<in> set findings
        \<longleftrightarrow> 80 < unat (inodeCount sb)) \<and>
     length findings =
       length (filter (\<lambda>failed. failed)
         [magic sb \<noteq> 0xD34D, unat (blockSize sb) \<noteq> 4096, unat (totalBlocks sb) \<noteq> 64,
          unat (inodeBitmapBlock sb) \<noteq> 1 \<or> unat (dataBitmapBlock sb) \<noteq> 2 \<or>
            unat (inodeTableStart sb) \<noteq> 3 \<or> unat (dataBlockStart sb) \<noteq> 8,
          unat (inodeSize sb) \<noteq> 256, 80 < unat (inodeCount sb)]))"
  unfolding readSuperblock_unfold
  by (simp add: Let_def del: One_nat_def)

lemma sb_AA:
  "Superblock_of_bytes (replicate BLOCK_SIZE 0xAA) =
     \<lparr>magic = 0xAAAA, blockSize = 0xAAAAAAAA, totalBlocks = 0xAAAAAAAA,
      inodeBitmapBlock = 0xAAAAAAAA, dataBitmapBlock = 0xAAAAAAAA,
      inodeTableStart = 0xAAAAAAAA, dataBlockStart = 0xAAAAAAAA,
      inodeSize = 0xAAAAAAAA, inodeCount = 0xAAAAAAAA\<rparr>"
  by (simp add: Superblock_of_bytes_def le16_def le32_def BLOCK_SIZE_def)

lemma readBlock_empty_file: "readBlock empty_file 0 buf = (empty_file, buf)"
  by (simp add: readBlock_def fseek_def fread_def empty_file_def)

theorem readSuperblock_six_checks_witness:
  "length (snd (snd (readSuperblock empty_file (uninit_AA 0)))) = 6"
  using readSuperblock_six_checks [of empty_file "uninit_AA 0"]
  by (simp add: case_prod_beta readBlock_empty_file uninit_AA_def sb_AA)

text \<open>
  C3, as stated, fails on a superblock whose inode bitmap block and data bitmap block
  are both wrong: two fields mismatch and there is one finding, which names neither
  field and no value.
\<close>

lemma sb_two: "Superblock_of_bytes (two_pointers_wrong @ r) =
  \<lparr>magic = 0xD34D, blockSize = 4096, totalBlocks = 64, inodeBitmapBlock = 9, dataBitmapBlock = 9,
   inodeTableStart = 3, dataBlockStart = 8, inodeSize = 256, inodeCount = 80\<rparr>"
  by (simp add: Superblock_of_bytes_def two_pointers_wrong_def le16_def le32_def)

theorem readSuperblock_counterexample:
  "inodeBitmapBlock (fst (snd (readSuperblock file_two_pointers_wrong (uninit_AA 0)))) = 9 \<and>
   dataBitmapBlock (fst (snd (readSuperblock file_two_pointers_wrong (uninit_AA 0)))) = 9 \<and>
   snd (snd (readSuperblock file_two_pointers_wrong (uninit_AA 0))) =
     [''ERROR: One or more superblock pointers are incorrect.\<newline>'']"
proof -
  have len: "length two_pointers_wrong = BLOCK_SIZE"
    by (simp add: two_pointers_wrong_def BLOCK_SIZE_def)
  have rb: "readBlock file_two_pointers_wrong (int SUPERBLOCK_BLOCK_NO) (uninit_AA 0) =
        (file_two_pointers_wrong\<lparr>pos := BLOCK_SIZE\<rparr>, two_pointers_wrong @ drop BLOCK_SIZE (uninit_AA 0))"
    using readBlock_full [of file_two_pointers_wrong 0 "uninit_AA 0"] len
    by (simp add: file_two_pointers_wrong_def block_of_def SUPERBLOCK_BLOCK_NO_def)
  have "readSuperblock file_two_pointers_wrong (uninit_AA 0) =
          (file_two_pointers_wrong\<lparr>pos := BLOCK_SIZE\<rparr>,
           Superblock_of_bytes (two_pointers_wrong @ drop BLOCK_SIZE (uninit_AA 0)),
           [''ERROR: One or more superblock pointers are incorrect.\<newline>''])"
    unfolding readSuperblock_def rb by (simp add: sb_two layout_defs)
  then show ?thesis
    by (simp add: sb_two)
qed

section \<open>Success lines\<close>

lemma fold_invariant:
  assumes "P s" "\<And>x s. x \<in> set xs \<Longrightarrow> P s \<Longrightarrow> P (f x s)"
  shows "P (fold f xs s)"
  using assms by (induction xs arbitrary: s) auto

lemma is_error_line_ERROR [simp]: "is_error_line (''ERROR: '' @ rest)"
  by (simp add: is_error_line_def)

lemma readSuperblock_errors_only:
  "l \<in> set (snd (snd (readSuperblock fp b0))) \<Longrightarrow> is_error_line l"
  by (auto simp: readSuperblock_def case_prod_beta Let_def is_error_line_def split: if_splits)

lemma checkInodes_inode_errors_only:
  assumes "\<forall>l\<in>set out. is_error_line l"
  shows "\<forall>l\<in>set (snd (checkInodes_inode i inode (g, out))). is_error_line l"
  using assms by (auto simp: checkInodes_inode_def Let_def is_error_line_def)

lemma checkInodes_errors_only:
  "\<forall>l\<in>set (snd (snd (snd (checkInodes fp b1 g)))). is_error_line l"
  unfolding checkInodes_def
proof (rule fold_invariant [where P = "\<lambda>s. \<forall>l\<in>set (snd (snd (snd s))). is_error_line l"])
  show "\<forall>l\<in>set (snd (snd (snd (fp, b1, g, [])))). is_error_line l" by simp
next
  fix x and s :: "FILE \<times> byte list \<times> globals \<times> string list"
  assume "\<forall>l\<in>set (snd (snd (snd s))). is_error_line l"
  then show "\<forall>l\<in>set (snd (snd (snd (checkInodes_body x s)))). is_error_line l"
    using checkInodes_inode_errors_only
    by (cases s) (simp add: checkInodes_body_def case_prod_beta Let_def)
qed

lemma checkDataBitmap_errors_only: "\<forall>l\<in>set (checkDataBitmap g). is_error_line l"
  unfolding checkDataBitmap_def
  by (rule fold_invariant) (auto simp: checkDataBitmap_body_def is_error_line_def)

lemma checkInodeBitmap_fold:
  "(case fold (checkInodeBitmap_body g) [0..<n] (0, []) of
      (errorCount, out) \<Rightarrow> errorCount = int (length out) \<and> (\<forall>l\<in>set out. is_error_line l))"
  by (rule fold_invariant)
    (auto simp: checkInodeBitmap_body_def is_error_line_def split: if_splits prod.splits)

lemma success_or_findings:
  assumes "\<forall>l\<in>set out. is_error_line l" "\<not> is_error_line ok"
  shows "(if out = [] then out @ [ok] else out) =
         (let errs = filter is_error_line (if out = [] then out @ [ok] else out)
          in if errs = [] then [ok] else errs)"
  using assms by (cases out) (auto simp: Let_def)

lemma checkInodeBitmap_success:
  "checkInodeBitmap g =
     (let errs = filter is_error_line (checkInodeBitmap g)
      in if errs = [] then [''Inode bitmap is consistent.\<newline>''] else errs)"
proof -
  obtain c out where f: "fold (checkInodeBitmap_body g) [0..<MAX_INODES] (0, []) = (c, out)"
    by (cases "fold (checkInodeBitmap_body g) [0..<MAX_INODES] (0, [])")
  from checkInodeBitmap_fold [of g MAX_INODES] f
  have c: "c = int (length out)" and e: "\<forall>l\<in>set out. is_error_line l" by auto
  have "checkInodeBitmap g = (if out = [] then out @ [''Inode bitmap is consistent.\<newline>''] else out)"
    by (simp add: checkInodeBitmap_def f c)
  then show ?thesis
    using success_or_findings [OF e, of "''Inode bitmap is consistent.\<newline>''"]
    by (simp add: is_error_line_def)
qed

lemma checkDuplicateBlocks_fold:
  "(case fold (checkDuplicateBlocks_body g) [0..<n] (False, []) of
      (duplicateFound, out) \<Rightarrow> duplicateFound = (out \<noteq> []) \<and> (\<forall>l\<in>set out. is_error_line l))"
  by (rule fold_invariant)
    (auto simp: checkDuplicateBlocks_body_def is_error_line_def split: if_splits prod.splits)

lemma checkDuplicateBlocks_success:
  "checkDuplicateBlocks g =
     (let errs = filter is_error_line (checkDuplicateBlocks g)
      in if errs = [] then [''No duplicate data block references found.\<newline>''] else errs)"
proof -
  obtain d out where f: "fold (checkDuplicateBlocks_body g) [0..<MAX_DATA_BLOCKS] (False, []) = (d, out)"
    by (cases "fold (checkDuplicateBlocks_body g) [0..<MAX_DATA_BLOCKS] (False, [])")
  from checkDuplicateBlocks_fold [of g MAX_DATA_BLOCKS] f
  have d: "d = (out \<noteq> [])" and e: "\<forall>l\<in>set out. is_error_line l" by auto
  have "checkDuplicateBlocks g =
          (if out = [] then out @ [''No duplicate data block references found.\<newline>''] else out)"
    by (simp add: checkDuplicateBlocks_def f d)
  then show ?thesis
    using success_or_findings [OF e, of "''No duplicate data block references found.\<newline>''"]
    by (simp add: is_error_line_def)
qed

lemma checkBadBlocks_inode_inv:
  assumes "b = (out \<noteq> [])" "\<forall>l\<in>set out. is_error_line l"
  shows "(case checkBadBlocks_inode i inode (b, out) of
            (b', out') \<Rightarrow> b' = (out' \<noteq> []) \<and> (\<forall>l\<in>set out'. is_error_line l))"
  using assms by (simp add: checkBadBlocks_inode_def Let_def is_error_line_def)

lemma checkBadBlocks_fold:
  "(case fold checkBadBlocks_body [0..<n] (fp, b2, False, []) of
      (fp', buf, badBlockFound, out) \<Rightarrow>
         badBlockFound = (out \<noteq> []) \<and> (\<forall>l\<in>set out. is_error_line l))"
proof (rule fold_invariant)
  show "case (fp, b2, False, []) of
          (fp', buf, badBlockFound, out) \<Rightarrow>
            badBlockFound = (out \<noteq> []) \<and> (\<forall>l\<in>set out. is_error_line l)" by simp
next
  fix x and s :: "FILE \<times> byte list \<times> bool \<times> string list"
  assume a: "case s of (fp', buf, badBlockFound, out) \<Rightarrow>
            badBlockFound = (out \<noteq> []) \<and> (\<forall>l\<in>set out. is_error_line l)"
  obtain fp' buf b out where s: "s = (fp', buf, b, out)" by (cases s)
  from a s have "b = (out \<noteq> [])" "\<forall>l\<in>set out. is_error_line l" by auto
  from checkBadBlocks_inode_inv [OF this]
  show "case checkBadBlocks_body x s of
          (fp', buf, badBlockFound, out) \<Rightarrow>
            badBlockFound = (out \<noteq> []) \<and> (\<forall>l\<in>set out. is_error_line l)"
    by (simp add: s checkBadBlocks_body_def case_prod_beta Let_def)
qed

lemma checkBadBlocks_success:
  "snd (checkBadBlocks fp b2) =
     (let errs = filter is_error_line (snd (checkBadBlocks fp b2))
      in if errs = [] then [''No invalid block references found in inodes.\<newline>''] else errs)"
proof -
  obtain fp' buf b out where
    f: "fold checkBadBlocks_body [0..<MAX_INODES] (fp, b2, False, []) = (fp', buf, b, out)"
    by (cases "fold checkBadBlocks_body [0..<MAX_INODES] (fp, b2, False, [])")
  from checkBadBlocks_fold [of MAX_INODES fp b2] f
  have b: "b = (out \<noteq> [])" and e: "\<forall>l\<in>set out. is_error_line l" by auto
  have "snd (checkBadBlocks fp b2) =
          (if out = [] then out @ [''No invalid block references found in inodes.\<newline>''] else out)"
    by (simp add: checkBadBlocks_def f b)
  then show ?thesis
    using success_or_findings [OF e, of "''No invalid block references found in inodes.\<newline>''"]
    by (simp add: is_error_line_def)
qed

text \<open>
  C5, as amended. Success lines occur in Pass 3 (inode bitmap), Pass 4 (duplicate blocks)
  and Pass 5 (bad pointers): each of them prints its success line exactly when it has no
  finding, and its findings otherwise. The superblock validation, the inode scan and
  Pass 2 (data bitmap) print findings only.
\<close>

theorem success_lines_of_passes:
  "(\<forall>l\<in>set (snd (snd (readSuperblock fp b0))). is_error_line l) \<and>
   (\<forall>l\<in>set (snd (snd (snd (checkInodes fp b1 g)))). is_error_line l) \<and>
   (\<forall>l\<in>set (checkDataBitmap g). is_error_line l) \<and>
   checkInodeBitmap g =
     (let errs = filter is_error_line (checkInodeBitmap g)
      in if errs = [] then [''Inode bitmap is consistent.\<newline>''] else errs) \<and>
   checkDuplicateBlocks g =
     (let errs = filter is_error_line (checkDuplicateBlocks g)
      in if errs = [] then [''No duplicate data block references found.\<newline>''] else errs) \<and>
   snd (checkBadBlocks fp b2) =
     (let errs = filter is_error_line (snd (checkBadBlocks fp b2))
      in if errs = [] then [''No invalid block references found in inodes.\<newline>''] else errs)"
  using readSuperblock_errors_only checkInodes_errors_only checkDataBitmap_errors_only
    checkInodeBitmap_success checkDuplicateBlocks_success checkBadBlocks_success
  by blast

lemma checkDuplicateBlocks_none:
  assumes "\<forall>i<MAX_DATA_BLOCKS. \<not> 1 < blockRefCount g ! i"
  shows "checkDuplicateBlocks g = [''No duplicate data block references found.\<newline>'']"
proof -
  have "fold (checkDuplicateBlocks_body g) [0..<MAX_DATA_BLOCKS] (False, []) = (False, [])"
    by (rule fold_invariant) (use assms in \<open>auto simp: checkDuplicateBlocks_body_def\<close>)
  then show ?thesis by (simp add: checkDuplicateBlocks_def)
qed

text \<open>
  C5, as stated, fails on the zeroed arrays: Pass 4 finds no duplicate and prints a
  success line.
\<close>

theorem checkDuplicateBlocks_success_counterexample:
  "checkDuplicateBlocks globals0 = [''No duplicate data block references found.\<newline>''] \<and>
   \<not> is_error_line ''No duplicate data block references found.\<newline>''"
  using checkDuplicateBlocks_none [of globals0]
  by (simp add: globals0_def is_error_line_def)

section \<open>The inode scan and the reference counts\<close>

lemma checkInodes_body_metadata:
  assumes "metadata_readable fp" "i < MAX_INODES"
  shows "\<exists>fp' buf'. checkInodes_body i (fp, buf, g, out) =
            (fp', buf', checkInodes_inode i (inode_at (contents fp) i) (g, out)) \<and>
          metadata_readable fp' \<and> contents fp' = contents fp"
proof -
  have len: "DATA_BLOCK_START * BLOCK_SIZE \<le> length (contents fp)"
    using assms(1) by (simp add: metadata_readable_def)
  have "checkInodes_body i (fp, buf, g, out) =
          (fp\<lparr>pos := (INODE_TABLE_START_BLOCK + (i * INODE_SIZE) div BLOCK_SIZE + 1) * BLOCK_SIZE\<rparr>,
           block_of (contents fp) (INODE_TABLE_START_BLOCK + (i * INODE_SIZE) div BLOCK_SIZE) @
             drop BLOCK_SIZE buf,
           fst (checkInodes_inode i (inode_at (contents fp) i) (g, out)),
           snd (checkInodes_inode i (inode_at (contents fp) i) (g, out)))"
    by (simp only: checkInodes_body_def prod.case Let_def
        readBlock_metadata [OF assms(1) slot_block [OF assms(2)]]
        slot_in_block [OF assms(2) len] case_prod_beta fst_conv snd_conv)
  then show ?thesis
    using assms(1) by simp
qed

lemma checkInodes_fold_metadata:
  assumes "metadata_readable fp" "n \<le> MAX_INODES"
  shows "\<exists>fp' buf'. fold checkInodes_body [0..<n] (fp, buf, g, out) =
            (fp', buf', fold (\<lambda>i. checkInodes_inode i (inode_at (contents fp) i)) [0..<n] (g, out)) \<and>
          metadata_readable fp' \<and> contents fp' = contents fp"
  using assms(2)
proof (induction n)
  case 0
  then show ?case using assms(1) by simp
next
  case (Suc n)
  then obtain fp' buf' where
    f: "fold checkInodes_body [0..<n] (fp, buf, g, out) =
          (fp', buf', fold (\<lambda>i. checkInodes_inode i (inode_at (contents fp) i)) [0..<n] (g, out))"
    and r: "metadata_readable fp'" and c: "contents fp' = contents fp"
    by auto
  obtain g' out' where p: "fold (\<lambda>i. checkInodes_inode i (inode_at (contents fp) i)) [0..<n] (g, out) = (g', out')"
    by (cases "fold (\<lambda>i. checkInodes_inode i (inode_at (contents fp) i)) [0..<n] (g, out)")
  from Suc.prems have "n < MAX_INODES" by simp
  from checkInodes_body_metadata [OF r this, of buf' g' out']
  show ?case by (auto simp: f p c)
qed

lemma checkInodes_metadata:
  assumes "metadata_readable fp"
  shows "\<exists>fp' buf'. checkInodes fp buf g =
            (fp', buf', fold (\<lambda>i. checkInodes_inode i (inode_at (contents fp) i)) [0..<MAX_INODES] (g, [])) \<and>
          metadata_readable fp' \<and> contents fp' = contents fp"
  unfolding checkInodes_def by (rule checkInodes_fold_metadata [OF assms order_refl])

lemma inodeUsed_step:
  "inodeUsed (fst (checkInodes_inode i ino (g, out))) =
     (if 0 < links ino \<and> dtime ino = 0 then (inodeUsed g)[i := True] else inodeUsed g)"
  by (simp add: checkInodes_inode_def Let_def)

lemma blockRefCount_step:
  "blockRefCount (fst (checkInodes_inode i ino (g, out))) =
     (if 0 < links ino \<and> dtime ino = 0 \<and> unat (direct ino) < MAX_DATA_BLOCKS
      then (blockRefCount g)[unat (direct ino) := blockRefCount g ! unat (direct ino) + 1]
      else blockRefCount g)"
  by (simp add: checkInodes_inode_def Let_def)

lemma nth_list_update_if:
  "j < length xs \<Longrightarrow> xs[n := v] ! j = (if j = n then v else xs ! j)"
  by (auto simp: nth_list_update)

lemma inodeUsed_fold:
  "length (inodeUsed (fst (fold (\<lambda>i. checkInodes_inode i (f i)) [0..<n] (g, out)))) =
     length (inodeUsed g) \<and>
   (\<forall>j<length (inodeUsed g).
      inodeUsed (fst (fold (\<lambda>i. checkInodes_inode i (f i)) [0..<n] (g, out))) ! j =
        (inodeUsed g ! j \<or> (j < n \<and> 0 < links (f j) \<and> dtime (f j) = 0)))"
proof (induction n)
  case 0
  then show ?case by simp
next
  case (Suc n)
  obtain g' out' where p: "fold (\<lambda>i. checkInodes_inode i (f i)) [0..<n] (g, out) = (g', out')"
    by (cases "fold (\<lambda>i. checkInodes_inode i (f i)) [0..<n] (g, out)")
  from Suc p have l: "length (inodeUsed g') = length (inodeUsed g)"
    and v: "\<forall>j<length (inodeUsed g). inodeUsed g' ! j =
              (inodeUsed g ! j \<or> (j < n \<and> 0 < links (f j) \<and> dtime (f j) = 0))"
    by auto
  show ?case
    using l v by (auto simp: p inodeUsed_step nth_list_update_if less_Suc_eq)
qed

lemma card_less_Suc:
  "card {i. i < Suc n \<and> P i} = card {i. i < n \<and> P i} + (if P n then 1 else 0)"
proof -
  have fin: "finite {i. i < n \<and> P i}" by simp
  have "{i. i < Suc n \<and> P i} = (if P n then insert n {i. i < n \<and> P i} else {i. i < n \<and> P i})"
    by (auto simp: less_Suc_eq)
  then show ?thesis using fin by simp
qed

lemma blockRefCount_fold:
  assumes "b < MAX_DATA_BLOCKS"
  shows "length (blockRefCount (fst (fold (\<lambda>i. checkInodes_inode i (f i)) [0..<n] (g, out)))) =
           length (blockRefCount g) \<and>
         (b < length (blockRefCount g) \<longrightarrow>
          blockRefCount (fst (fold (\<lambda>i. checkInodes_inode i (f i)) [0..<n] (g, out))) ! b =
            blockRefCount g ! b +
            int (card {i. i < n \<and> (0 < links (f i) \<and> dtime (f i) = 0) \<and> unat (direct (f i)) = b}))"
proof (induction n)
  case 0
  then show ?case by simp
next
  case (Suc n)
  obtain g' out' where p: "fold (\<lambda>i. checkInodes_inode i (f i)) [0..<n] (g, out) = (g', out')"
    by (cases "fold (\<lambda>i. checkInodes_inode i (f i)) [0..<n] (g, out)")
  from Suc p have l: "length (blockRefCount g') = length (blockRefCount g)"
    and v: "b < length (blockRefCount g) \<longrightarrow> blockRefCount g' ! b =
            blockRefCount g ! b +
            int (card {i. i < n \<and> (0 < links (f i) \<and> dtime (f i) = 0) \<and> unat (direct (f i)) = b})"
    by auto
  show ?case
    using l v assms
    by (auto simp: p blockRefCount_step nth_list_update_if card_less_Suc)
qed

lemma fold_print:
  assumes "\<And>i out. f i out = out @ h i"
  shows "fold f xs out = out @ concat (map h xs)"
  by (induction xs arbitrary: out) (simp_all add: assms)

lemma checkDataBitmap_concat:
  "checkDataBitmap g = concat (map (\<lambda>i. checkDataBitmap_body g i []) [0..<MAX_DATA_BLOCKS])"
  unfolding checkDataBitmap_def
  using fold_print [of "checkDataBitmap_body g" "\<lambda>i. checkDataBitmap_body g i []" "[0..<MAX_DATA_BLOCKS]" "[]"]
  by (simp add: checkDataBitmap_body_def)

lemma checkDataBitmap_duplicate:
  assumes "b < MAX_DATA_BLOCKS" "1 < blockRefCount g ! b"
  shows "''ERROR: Data block '' @ decimal b @ '' is referenced by multiple inodes.\<newline>''
           \<in> set (checkDataBitmap g)"
proof -
  have "''ERROR: Data block '' @ decimal b @ '' is referenced by multiple inodes.\<newline>''
          \<in> set (checkDataBitmap_body g b [])"
    using assms(2) by (simp add: checkDataBitmap_body_def)
  then show ?thesis
    unfolding checkDataBitmap_concat using assms(1) by (auto simp del: append.simps)
qed

lemma checkDuplicateBlocks_fold_eq:
  "fold (checkDuplicateBlocks_body g) [0..<n] (False, []) =
     (\<exists>i<n. 1 < blockRefCount g ! i,
      concat (map (\<lambda>i. if 1 < blockRefCount g ! i
                        then [''ERROR: Data block '' @ decimal i @ '' is referenced by multiple inodes.\<newline>'']
                        else []) [0..<n]))"
  by (induction n) (auto simp: checkDuplicateBlocks_body_def less_Suc_eq)

lemma checkDuplicateBlocks_duplicate:
  assumes "b < MAX_DATA_BLOCKS" "1 < blockRefCount g ! b"
  shows "''ERROR: Data block '' @ decimal b @ '' is referenced by multiple inodes.\<newline>''
           \<in> set (checkDuplicateBlocks g)"
  using assms
  by (auto simp: checkDuplicateBlocks_def checkDuplicateBlocks_fold_eq simp del: append.simps)

text \<open>
  C2. The flags being false before the pass: after the inode scan of an image whose
  metadata blocks can be read, \<open>inodeUsed[i]\<close> is true if and only if the inode
  decoded at index \<open>i\<close> has \<open>links > 0\<close> and \<open>dtime = 0\<close>, for every
  \<open>i < MAX_INODES\<close>.
\<close>

theorem inodeUsed_iff_valid:
  assumes "metadata_readable fp" "inodeUsed g = replicate MAX_INODES False" "i < MAX_INODES"
  shows "(case checkInodes fp blockBuffer0 g of (fp', blockBuffer, g', out) \<Rightarrow>
            inodeUsed g' ! i =
              (0 < links (inode_at (contents fp) i) \<and> dtime (inode_at (contents fp) i) = 0))"
proof -
  from checkInodes_metadata [OF assms(1), of blockBuffer0 g]
  obtain fp' buf' where
    c: "checkInodes fp blockBuffer0 g =
          (fp', buf', fold (\<lambda>i. checkInodes_inode i (inode_at (contents fp) i)) [0..<MAX_INODES] (g, []))"
    by auto
  from inodeUsed_fold [of "inode_at (contents fp)" MAX_INODES g "[]"] assms(2,3)
  show ?thesis
    by (simp add: c case_prod_beta)
qed

text \<open>
  C1. The counts being zero before the pass: after the inode scan,
  \<open>blockRefCount[b]\<close> is the number of inode indices whose decoded inode is valid and
  has \<open>direct = b\<close>, for every \<open>b < MAX_DATA_BLOCKS\<close>; and when that count is
  above one, the line that reports block \<open>b\<close> as referenced by multiple inodes is
  printed by Pass 2 (\<open>checkDataBitmap\<close>) and by Pass 4 (\<open>checkDuplicateBlocks\<close>).
\<close>

theorem blockRefCount_counts_references:
  assumes "metadata_readable fp" "blockRefCount g = replicate MAX_DATA_BLOCKS 0"
    "b < MAX_DATA_BLOCKS"
  shows "(case checkInodes fp blockBuffer0 g of (fp', blockBuffer, g', out) \<Rightarrow>
            blockRefCount g' ! b =
              int (card {i. i < MAX_INODES \<and>
                            0 < links (inode_at (contents fp) i) \<and>
                            dtime (inode_at (contents fp) i) = 0 \<and>
                            unat (direct (inode_at (contents fp) i)) = b}) \<and>
            (1 < blockRefCount g' ! b \<longrightarrow>
               ''ERROR: Data block '' @ decimal b @ '' is referenced by multiple inodes.\<newline>''
                 \<in> set (checkDataBitmap g') \<and>
               ''ERROR: Data block '' @ decimal b @ '' is referenced by multiple inodes.\<newline>''
                 \<in> set (checkDuplicateBlocks g')))"
proof -
  from checkInodes_metadata [OF assms(1), of blockBuffer0 g]
  obtain fp' buf' where
    c: "checkInodes fp blockBuffer0 g =
          (fp', buf', fold (\<lambda>i. checkInodes_inode i (inode_at (contents fp) i)) [0..<MAX_INODES] (g, []))"
    by auto
  from blockRefCount_fold [OF assms(3), of "inode_at (contents fp)" MAX_INODES g "[]"] assms(2,3)
  show ?thesis
    using checkDataBitmap_duplicate [OF assms(3)] checkDuplicateBlocks_duplicate [OF assms(3)]
    by (simp add: c case_prod_beta)
qed

section \<open>An image with a shared block\<close>

lemma length_inode_a [simp]: "length inode_a = 256" by (simp add: inode_a_def)
lemma length_inode_b [simp]: "length inode_b = 256" by (simp add: inode_b_def)

lemma file_shared_block_readable: "metadata_readable file_shared_block"
  by (simp add: metadata_readable_def file_shared_block_def image_shared_block_def layout_defs)

lemma le32_zeros: "k + 3 < n \<Longrightarrow> le32 (replicate n 0) k = 0"
  by (simp add: le32_def)

lemma Inode_of_zeros:
  "Inode_of_bytes (replicate 212 0) =
     \<lparr>mode = 0, uid = 0, gid = 0, size' = 0, atime = 0, ctime = 0, mtime = 0, dtime = 0,
      links = 0, blocks = 0, direct = 0, indirect = 0, doubleIndirect = 0, tripleIndirect = 0\<rparr>"
  by (simp add: Inode_of_bytes_def le32_zeros)

lemma inode_at_shared_0:
  "inode_at image_shared_block 0 =
     \<lparr>mode = 0, uid = 0, gid = 0, size' = 0, atime = 0, ctime = 0, mtime = 0, dtime = 0,
      links = 1, blocks = 0, direct = 10, indirect = 0, doubleIndirect = 0, tripleIndirect = 0\<rparr>"
  by (simp add: inode_at_def image_shared_block_def layout_defs sizeof_Inode_def
      inode_a_def Inode_of_bytes_def le32_def nth_append)

lemma inode_at_shared_1:
  "inode_at image_shared_block 1 =
     \<lparr>mode = 0, uid = 0, gid = 0, size' = 0, atime = 0, ctime = 0, mtime = 0, dtime = 0,
      links = 1, blocks = 0, direct = 10, indirect = 99, doubleIndirect = 0, tripleIndirect = 0\<rparr>"
  by (simp add: inode_at_def image_shared_block_def layout_defs sizeof_Inode_def
      inode_b_def Inode_of_bytes_def le32_def nth_append)

lemma inode_at_shared_rest:
  assumes "2 \<le> i" "i < MAX_INODES"
  shows "inode_at image_shared_block i = Inode_of_bytes (replicate 212 0)"
proof -
  from assms have i: "512 \<le> i * 256" "i * 256 \<le> 20224" by (simp_all add: layout_defs)
  have "drop (12288 + i * 256) image_shared_block = replicate (20480 - i * 256) 0"
    using i by (simp add: image_shared_block_def)
  moreover have "min 212 (20480 - i * 256) = 212" using i by simp
  ultimately show ?thesis
    by (simp add: inode_at_def layout_defs sizeof_Inode_def)
qed

lemma decimal_10: "decimal 10 = ''10''" by (simp add: decimal.simps)
lemma decimal_0: "decimal 0 = ''0''" by (simp add: decimal.simps)
lemma decimal_1: "decimal 1 = ''1''" by (simp add: decimal.simps)
lemma decimal_99: "decimal 99 = ''99''" by (simp add: decimal.simps)

lemmas inode_at_shared_Suc_0 = inode_at_shared_1 [unfolded One_nat_def]

lemma shared_valid:
  assumes "i < MAX_INODES"
  shows "(0 < links (inode_at image_shared_block i) \<and> dtime (inode_at image_shared_block i) = 0)
           = (i < 2)"
proof (cases "i < 2")
  case True
  then have "i = 0 \<or> i = 1" by auto
  then show ?thesis by (auto simp: inode_at_shared_0 inode_at_shared_Suc_0)
next
  case False
  then show ?thesis using assms by (simp add: inode_at_shared_rest Inode_of_zeros)
qed

lemma shared_references:
  "{i. i < MAX_INODES \<and>
       0 < links (inode_at image_shared_block i) \<and> dtime (inode_at image_shared_block i) = 0 \<and>
       unat (direct (inode_at image_shared_block i)) = 10} = {0, 1}"
proof (intro equalityI subsetI)
  fix x
  assume "x \<in> {i. i < MAX_INODES \<and>
       0 < links (inode_at image_shared_block i) \<and> dtime (inode_at image_shared_block i) = 0 \<and>
       unat (direct (inode_at image_shared_block i)) = 10}"
  then have "x < MAX_INODES"
    and "0 < links (inode_at image_shared_block x) \<and> dtime (inode_at image_shared_block x) = 0"
    by auto
  then have "x < 2" by (simp add: shared_valid)
  then show "x \<in> {0, 1}" by auto
next
  fix x :: nat
  assume "x \<in> {0, 1}"
  then have "x = 0 \<or> x = Suc 0" by auto
  then show "x \<in> {i. i < MAX_INODES \<and>
       0 < links (inode_at image_shared_block i) \<and> dtime (inode_at image_shared_block i) = 0 \<and>
       unat (direct (inode_at image_shared_block i)) = 10}"
    by (auto simp: inode_at_shared_0 inode_at_shared_Suc_0 layout_defs)
qed

theorem blockRefCount_counts_references_witness:
  "metadata_readable file_shared_block \<and>
   blockRefCount globals0 = replicate MAX_DATA_BLOCKS 0 \<and>
   (case checkInodes file_shared_block (uninit_AA 3) globals0 of
      (fp', blockBuffer, g', out) \<Rightarrow>
        blockRefCount g' ! 10 = 2 \<and>
        ''ERROR: Data block 10 is referenced by multiple inodes.\<newline>'' \<in> set (checkDataBitmap g') \<and>
        ''ERROR: Data block 10 is referenced by multiple inodes.\<newline>''
          \<in> set (checkDuplicateBlocks g'))"
proof -
  have b: "10 < MAX_DATA_BLOCKS" by (simp add: layout_defs)
  have g: "blockRefCount globals0 = replicate MAX_DATA_BLOCKS 0" by (simp add: globals0_def)
  have c: "contents file_shared_block = image_shared_block" by (simp add: file_shared_block_def)
  show ?thesis
    using blockRefCount_counts_references [OF file_shared_block_readable g b, of "uninit_AA 3"]
      file_shared_block_readable g
    by (simp add: case_prod_beta c shared_references decimal_10)
qed

theorem inodeUsed_iff_valid_witness:
  "metadata_readable file_shared_block \<and>
   inodeUsed globals0 = replicate MAX_INODES False \<and>
   (case checkInodes file_shared_block (uninit_AA 3) globals0 of
      (fp', blockBuffer, g', out) \<Rightarrow> inodeUsed g' ! 1 \<and> \<not> inodeUsed g' ! 2)"
  using inodeUsed_iff_valid [OF file_shared_block_readable, of globals0 1 "uninit_AA 3"]
    inodeUsed_iff_valid [OF file_shared_block_readable, of globals0 2 "uninit_AA 3"]
    shared_valid [of 1] shared_valid [of 2] file_shared_block_readable
  by (simp add: globals0_def file_shared_block_def case_prod_beta MAX_INODES_def
      INODES_PER_BLOCK_def BLOCK_SIZE_def INODE_SIZE_def INODE_TABLE_BLOCKS_def)


section \<open>The bad-pointer scan\<close>

lemma checkBadBlocks_inode_eq:
  "checkBadBlocks_inode i inode (b, out) =
     (b \<or> bad_pointer_findings i inode \<noteq> [], out @ bad_pointer_findings i inode)"
  by (simp add: checkBadBlocks_inode_def bad_pointer_findings_def Let_def not_less)

lemma checkBadBlocks_body_metadata:
  assumes "metadata_readable fp" "i < MAX_INODES"
  shows "\<exists>fp' buf'. checkBadBlocks_body i (fp, buf, b, out) =
            (fp', buf', b \<or> bad_pointer_findings i (inode_at (contents fp) i) \<noteq> [],
             out @ bad_pointer_findings i (inode_at (contents fp) i)) \<and>
          metadata_readable fp' \<and> contents fp' = contents fp"
proof -
  have len: "DATA_BLOCK_START * BLOCK_SIZE \<le> length (contents fp)"
    using assms(1) by (simp add: metadata_readable_def)
  have "checkBadBlocks_body i (fp, buf, b, out) =
          (fp\<lparr>pos := (INODE_TABLE_START_BLOCK + (i * INODE_SIZE) div BLOCK_SIZE + 1) * BLOCK_SIZE\<rparr>,
           block_of (contents fp) (INODE_TABLE_START_BLOCK + (i * INODE_SIZE) div BLOCK_SIZE) @
             drop BLOCK_SIZE buf,
           b \<or> bad_pointer_findings i (inode_at (contents fp) i) \<noteq> [],
           out @ bad_pointer_findings i (inode_at (contents fp) i))"
    by (simp only: checkBadBlocks_body_def prod.case Let_def
        readBlock_metadata [OF assms(1) slot_block [OF assms(2)]]
        slot_in_block [OF assms(2) len] checkBadBlocks_inode_eq)
  then show ?thesis
    using assms(1) by simp
qed

lemma checkBadBlocks_fold_metadata:
  assumes "metadata_readable fp" "n \<le> MAX_INODES"
  shows "\<exists>fp' buf'. fold checkBadBlocks_body [0..<n] (fp, buf, b, out) =
            (fp', buf',
             b \<or> (\<exists>i<n. bad_pointer_findings i (inode_at (contents fp) i) \<noteq> []),
             out @ concat (map (\<lambda>i. bad_pointer_findings i (inode_at (contents fp) i)) [0..<n])) \<and>
          metadata_readable fp' \<and> contents fp' = contents fp"
  using assms(2)
proof (induction n)
  case 0
  then show ?case using assms(1) by simp
next
  case (Suc n)
  then obtain fp' buf' where
    f: "fold checkBadBlocks_body [0..<n] (fp, buf, b, out) =
          (fp', buf',
           b \<or> (\<exists>i<n. bad_pointer_findings i (inode_at (contents fp) i) \<noteq> []),
           out @ concat (map (\<lambda>i. bad_pointer_findings i (inode_at (contents fp) i)) [0..<n]))"
    and r: "metadata_readable fp'" and c: "contents fp' = contents fp"
    by auto
  from Suc.prems have "n < MAX_INODES" by simp
  from checkBadBlocks_body_metadata [OF r this, of buf'
      "b \<or> (\<exists>i<n. bad_pointer_findings i (inode_at (contents fp) i) \<noteq> [])"
      "out @ concat (map (\<lambda>i. bad_pointer_findings i (inode_at (contents fp) i)) [0..<n])"]
  obtain fp'' buf'' where
    s: "checkBadBlocks_body n (fp', buf',
          b \<or> (\<exists>i<n. bad_pointer_findings i (inode_at (contents fp) i) \<noteq> []),
          out @ concat (map (\<lambda>i. bad_pointer_findings i (inode_at (contents fp) i)) [0..<n])) =
        (fp'', buf'',
         (b \<or> (\<exists>i<n. bad_pointer_findings i (inode_at (contents fp) i) \<noteq> [])) \<or>
           bad_pointer_findings n (inode_at (contents fp) n) \<noteq> [],
         (out @ concat (map (\<lambda>i. bad_pointer_findings i (inode_at (contents fp) i)) [0..<n])) @
           bad_pointer_findings n (inode_at (contents fp) n))"
    and r': "metadata_readable fp''" and c': "contents fp'' = contents fp"
    unfolding c by auto
  have e: "(\<exists>i<Suc n. bad_pointer_findings i (inode_at (contents fp) i) \<noteq> []) =
        ((\<exists>i<n. bad_pointer_findings i (inode_at (contents fp) i) \<noteq> []) \<or>
          bad_pointer_findings n (inode_at (contents fp) n) \<noteq> [])"
    by (auto simp: less_Suc_eq)
  show ?case
    unfolding e using r' c' by (simp add: f s)
qed

text \<open>
  C4. Pass 5 looks only at inodes with \<open>links > 0\<close> and \<open>dtime = 0\<close>. For such
  an inode each of the four pointers is checked against \<open>[0, MAX_DATA_BLOCKS)\<close>: a
  direct pointer of 0 is in range, a direct pointer of \<open>MAX_DATA_BLOCKS\<close> or more is
  reported, and an indirect, double indirect or triple indirect pointer is reported when
  it is out of range, never when it is 0. The output of the pass is these reports in
  inode order, or the single success line when there is none.
\<close>

theorem checkBadBlocks_findings:
  assumes "metadata_readable fp"
  shows "snd (checkBadBlocks fp blockBuffer0) =
           (let findings =
                  concat (map (\<lambda>i. bad_pointer_findings i (inode_at (contents fp) i))
                            [0..<MAX_INODES])
            in if findings = []
               then [''No invalid block references found in inodes.\<newline>''] else findings)"
proof -
  from checkBadBlocks_fold_metadata [OF assms order_refl, of blockBuffer0 False "[]"]
  obtain fp' buf' where
    f: "fold checkBadBlocks_body [0..<MAX_INODES] (fp, blockBuffer0, False, []) =
          (fp', buf',
           (\<exists>i<MAX_INODES. bad_pointer_findings i (inode_at (contents fp) i) \<noteq> []),
           concat (map (\<lambda>i. bad_pointer_findings i (inode_at (contents fp) i)) [0..<MAX_INODES]))"
    by auto
  show ?thesis
    by (auto simp: checkBadBlocks_def f Let_def)
qed


lemma shared_findings:
  assumes "i < MAX_INODES"
  shows "bad_pointer_findings i (inode_at image_shared_block i) =
           (if i = 1 then [''ERROR: Inode 1 has invalid single indirect block 99.\<newline>''] else [])"
proof -
  consider "i = 0" | "i = 1" | "2 \<le> i" by linarith
  then show ?thesis
  proof cases
    case 1
    then show ?thesis
      by (simp add: bad_pointer_findings_def inode_at_shared_0 layout_defs)
  next
    case 2
    then show ?thesis
      by (simp add: bad_pointer_findings_def inode_at_shared_Suc_0 layout_defs
          decimal_1 [unfolded One_nat_def] decimal_99)
  next
    case 3
    then show ?thesis using assms
      by (simp add: bad_pointer_findings_def inode_at_shared_rest Inode_of_zeros)
  qed
qed

lemma concat_single:
  "concat (map (\<lambda>i. if i = k then [x] else []) [0..<n]) = (if k < n then [x] else [])"
  by (induction n) (auto simp: less_Suc_eq)

theorem checkBadBlocks_findings_witness:
  "metadata_readable file_shared_block \<and>
   snd (checkBadBlocks file_shared_block (uninit_AA 4)) =
     [''ERROR: Inode 1 has invalid single indirect block 99.\<newline>'']"
proof -
  have c: "contents file_shared_block = image_shared_block" by (simp add: file_shared_block_def)
  have "concat (map (\<lambda>i. bad_pointer_findings i (inode_at image_shared_block i)) [0..<MAX_INODES]) =
        concat (map (\<lambda>i. if i = 1
                          then [''ERROR: Inode 1 has invalid single indirect block 99.\<newline>'']
                          else []) [0..<MAX_INODES])"
    by (rule arg_cong [where f = concat]) (simp add: shared_findings)
  also have "\<dots> = [''ERROR: Inode 1 has invalid single indirect block 99.\<newline>'']"
    unfolding concat_single by (simp add: layout_defs)
  finally show ?thesis
    using checkBadBlocks_findings [OF file_shared_block_readable, of "uninit_AA 4"]
      file_shared_block_readable
    by (simp add: c Let_def)
qed

section \<open>Unpacking a bitmap\<close>

lemma bit_test: "((drop_bit k (w :: byte) AND 1) \<noteq> 0) = bit w k"
  by (simp add: and_one_eq bit_iff_odd_drop_bit odd_iff_mod_2_eq_one)

lemma fold_list_update:
  "count \<le> length bitmap \<Longrightarrow>
   fold (\<lambda>i bm. bm[i := f i]) [0..<count] bitmap = map f [0..<count] @ drop count bitmap"
proof (induction count)
  case 0
  then show ?case by simp
next
  case (Suc n)
  then have n: "n < length bitmap" by simp
  have d: "drop n bitmap = bitmap ! n # drop (Suc n) bitmap"
    using n by (simp add: Cons_nth_drop_Suc)
  have "fold (\<lambda>i bm. bm[i := f i]) [0..<Suc n] bitmap =
        (map f [0..<n] @ drop n bitmap)[n := f n]"
    using Suc by simp
  also have "\<dots> = map f [0..<n] @ (drop n bitmap)[0 := f n]"
    by (simp add: list_update_append)
  also have "\<dots> = map f [0..<n] @ f n # drop (Suc n) bitmap"
    unfolding d by simp
  finally show ?case by simp
qed

lemma loadBitmap_bits:
  assumes "count \<le> length bitmap"
  shows "snd (loadBitmap fp blockNum bitmap count rawBitmap0) =
           map (\<lambda>i. bit (snd (readBlock fp blockNum rawBitmap0) ! (i div 8)) (i mod 8)) [0..<count] @
           drop count bitmap"
  using fold_list_update [OF assms]
  by (simp add: loadBitmap_def case_prod_beta bit_test)

lemma length_pack_bits: "length (pack_bits v) = (length v + 7) div 8"
  by (simp add: pack_bits_def)

lemma bit_pack_bits:
  assumes "i < length v"
  shows "bit (pack_bits v ! (i div 8)) (i mod 8) = v ! i"
proof -
  have k: "i div 8 < (length v + 7) div 8" using assms by simp
  have "8 * (i div 8) + i mod 8 = i" by simp
  then have m: "i mod 8 < length v - 8 * (i div 8)" using assms by linarith
  have "pack_bits v ! (i div 8) = horner_sum of_bool 2 (take 8 (drop (8 * (i div 8)) v))"
    using k by (simp add: pack_bits_def)
  then have "bit (pack_bits v ! (i div 8)) (i mod 8) =
        (take 8 (drop (8 * (i div 8)) v)) ! (i mod 8)"
    using m by (simp add: bit_horner_sum_bit_word_iff)
  also have "\<dots> = v ! (8 * (i div 8) + i mod 8)"
    using m by simp
  finally show ?thesis by simp
qed

text \<open>
  C9. For every boolean vector \<open>v\<close>, of a length that may or may not be a multiple
  of 8: when block \<open>k\<close> of the file holds \<open>v\<close> packed in the stated bit order,
  followed by any bits \<open>beyond\<close> it, \<open>loadBitmap\<close> for \<open>length v\<close> entries
  yields \<open>v\<close> in the first \<open>length v\<close> entries of the array; the bits beyond the
  count play no part.
\<close>

theorem loadBitmap_unpacks:
  assumes "seekable fp"
    and "(k + 1) * BLOCK_SIZE \<le> length (contents fp)"
    and "block_of (contents fp) k = pack_bits (v @ beyond)"
    and "length v \<le> length bitmap"
  shows "snd (loadBitmap fp (int k) bitmap (length v) rawBitmap0) = v @ drop (length v) bitmap"
proof -
  have rb: "snd (readBlock fp (int k) rawBitmap0) =
        pack_bits (v @ beyond) @ drop BLOCK_SIZE rawBitmap0"
    using readBlock_full [OF assms(1,2)] assms(3) by simp
  have len: "length (pack_bits (v @ beyond)) = BLOCK_SIZE"
    using length_block_of [OF assms(2)] assms(3) by simp
  have "map (\<lambda>i. bit (snd (readBlock fp (int k) rawBitmap0) ! (i div 8)) (i mod 8)) [0..<length v] =
        map (\<lambda>i. v ! i) [0..<length v]"
  proof (rule map_cong [OF refl])
    fix i assume "i \<in> set [0..<length v]"
    then have i: "i < length v" by simp
    then have "i < length (v @ beyond)" by simp
    then have "i div 8 < length (pack_bits (v @ beyond))"
      by (simp add: length_pack_bits)
    then have "snd (readBlock fp (int k) rawBitmap0) ! (i div 8) = pack_bits (v @ beyond) ! (i div 8)"
      by (simp add: rb nth_append)
    then show "bit (snd (readBlock fp (int k) rawBitmap0) ! (i div 8)) (i mod 8) = v ! i"
      using bit_pack_bits [of i "v @ beyond"] i by (simp add: nth_append)
  qed
  then show ?thesis
    by (simp add: loadBitmap_bits [OF assms(4)] map_nth)
qed

theorem loadBitmap_unpacks_witness:
  "seekable file_packed_bits \<and>
   (0 + 1) * BLOCK_SIZE \<le> length (contents file_packed_bits) \<and>
   block_of (contents file_packed_bits) 0 =
     pack_bits ([True, False, True] @ replicate (8 * BLOCK_SIZE - 3) True) \<and>
   snd (loadBitmap file_packed_bits (int 0) [False, False, False] (length [True, False, True])
          (uninit_AA 1)) = [True, False, True]"
proof -
  have c: "contents file_packed_bits =
      pack_bits ([True, False, True] @ replicate (8 * BLOCK_SIZE - 3) True)"
    by (simp add: file_packed_bits_def)
  have s: "seekable file_packed_bits" by (simp add: file_packed_bits_def)
  have l: "(0 + 1) * BLOCK_SIZE \<le> length (contents file_packed_bits)"
    by (simp add: c length_pack_bits BLOCK_SIZE_def)
  have b: "block_of (contents file_packed_bits) 0 =
      pack_bits ([True, False, True] @ replicate (8 * BLOCK_SIZE - 3) True)"
    unfolding c by (simp add: block_of_def length_pack_bits BLOCK_SIZE_def)
  have n: "length [True, False, True] \<le> length [False, False, False]" by simp
  from loadBitmap_unpacks [OF s l b n, of "uninit_AA 1"] s l b
  show ?thesis by simp
qed

section \<open>The data region is never read\<close>

lemma take_drop_take: "a + n \<le> m \<Longrightarrow> take n (drop a (take m xs)) = take n (drop a xs)"
  by (simp add: drop_take min_def)

lemma block_of_take:
  assumes "k < DATA_BLOCK_START"
  shows "block_of (take (DATA_BLOCK_START * BLOCK_SIZE) img) k = block_of img k"
proof -
  from assms have "k + 1 \<le> DATA_BLOCK_START" by simp
  then have "(k + 1) * BLOCK_SIZE \<le> DATA_BLOCK_START * BLOCK_SIZE" by (rule mult_le_mono1)
  then have "k * BLOCK_SIZE + BLOCK_SIZE \<le> DATA_BLOCK_START * BLOCK_SIZE" by simp
  then show ?thesis unfolding block_of_def by (rule take_drop_take)
qed

lemma inode_at_take:
  assumes "i < MAX_INODES"
  shows "inode_at (take (DATA_BLOCK_START * BLOCK_SIZE) img) i = inode_at img i"
proof -
  from assms have "i * 256 \<le> 79 * 256" by (simp add: layout_defs)
  then have "INODE_TABLE_START_BLOCK * BLOCK_SIZE + i * INODE_SIZE + sizeof_Inode
               \<le> DATA_BLOCK_START * BLOCK_SIZE"
    by (simp add: layout_defs sizeof_Inode_def)
  then show ?thesis unfolding inode_at_def by (simp only: take_drop_take)
qed

lemma same_metadata_block:
  assumes "same_metadata fp1 fp2" "k < DATA_BLOCK_START"
  shows "block_of (contents fp1) k = block_of (contents fp2) k"
  using block_of_take [OF assms(2), of "contents fp1"] block_of_take [OF assms(2), of "contents fp2"]
    assms(1) by (simp add: same_metadata_def)

lemma same_metadata_inode:
  assumes "same_metadata fp1 fp2" "i < MAX_INODES"
  shows "inode_at (contents fp1) i = inode_at (contents fp2) i"
  using inode_at_take [OF assms(2), of "contents fp1"] inode_at_take [OF assms(2), of "contents fp2"]
    assms(1) by (simp add: same_metadata_def)

lemma same_metadata_keep:
  assumes "same_metadata fp1 fp2"
    "metadata_readable fp1'" "contents fp1' = contents fp1"
    "metadata_readable fp2'" "contents fp2' = contents fp2"
  shows "same_metadata fp1' fp2'"
  using assms by (simp add: same_metadata_def)

lemma readBlock_same:
  assumes "same_metadata fp1 fp2" "k < DATA_BLOCK_START"
  shows "snd (readBlock fp1 (int k) buf) = snd (readBlock fp2 (int k) buf) \<and>
         same_metadata (fst (readBlock fp1 (int k) buf)) (fst (readBlock fp2 (int k) buf))"
proof -
  from assms(1) have r: "metadata_readable fp1" "metadata_readable fp2"
    by (simp_all add: same_metadata_def)
  show ?thesis
    using same_metadata_block [OF assms] assms(1)
    by (simp add: readBlock_metadata [OF r(1) assms(2)] readBlock_metadata [OF r(2) assms(2)]
        same_metadata_def)
qed

lemma readSuperblock_same:
  assumes "same_metadata fp1 fp2"
  shows "snd (readSuperblock fp1 b) = snd (readSuperblock fp2 b) \<and>
         same_metadata (fst (readSuperblock fp1 b)) (fst (readSuperblock fp2 b))"
proof -
  have "SUPERBLOCK_BLOCK_NO < DATA_BLOCK_START" by (simp add: layout_defs)
  from readBlock_same [OF assms this, of b]
  show ?thesis by (simp add: readSuperblock_def case_prod_beta Let_def)
qed

lemma loadBitmap_same:
  assumes "same_metadata fp1 fp2" "k < DATA_BLOCK_START"
  shows "snd (loadBitmap fp1 (int k) bitmap count b) = snd (loadBitmap fp2 (int k) bitmap count b) \<and>
         same_metadata (fst (loadBitmap fp1 (int k) bitmap count b))
           (fst (loadBitmap fp2 (int k) bitmap count b))"
  using readBlock_same [OF assms, of b]
  by (simp add: loadBitmap_def case_prod_beta)

lemma checkInodes_same:
  assumes "same_metadata fp1 fp2"
  shows "snd (snd (checkInodes fp1 b g)) = snd (snd (checkInodes fp2 b g)) \<and>
         same_metadata (fst (checkInodes fp1 b g)) (fst (checkInodes fp2 b g))"
proof -
  from assms have r: "metadata_readable fp1" "metadata_readable fp2"
    by (simp_all add: same_metadata_def)
  from checkInodes_metadata [OF r(1), of b g] obtain fp1' buf1' where
    c1: "checkInodes fp1 b g =
           (fp1', buf1', fold (\<lambda>i. checkInodes_inode i (inode_at (contents fp1) i)) [0..<MAX_INODES] (g, []))"
    and k1: "metadata_readable fp1'" "contents fp1' = contents fp1" by auto
  from checkInodes_metadata [OF r(2), of b g] obtain fp2' buf2' where
    c2: "checkInodes fp2 b g =
           (fp2', buf2', fold (\<lambda>i. checkInodes_inode i (inode_at (contents fp2) i)) [0..<MAX_INODES] (g, []))"
    and k2: "metadata_readable fp2'" "contents fp2' = contents fp2" by auto
  have "fold (\<lambda>i. checkInodes_inode i (inode_at (contents fp1) i)) [0..<MAX_INODES] (g, []) =
        fold (\<lambda>i. checkInodes_inode i (inode_at (contents fp2) i)) [0..<MAX_INODES] (g, [])"
    by (rule fold_cong) (simp_all add: same_metadata_inode [OF assms])
  then show ?thesis
    using same_metadata_keep [OF assms k1 k2] by (simp add: c1 c2)
qed

lemma checkBadBlocks_same:
  assumes "same_metadata fp1 fp2"
  shows "snd (checkBadBlocks fp1 b) = snd (checkBadBlocks fp2 b)"
proof -
  from assms have r: "metadata_readable fp1" "metadata_readable fp2"
    by (simp_all add: same_metadata_def)
  from checkBadBlocks_fold_metadata [OF r(1) order_refl, of b False "[]"]
  obtain fp1' buf1' where
    f1: "fold checkBadBlocks_body [0..<MAX_INODES] (fp1, b, False, []) =
          (fp1', buf1',
           False \<or> (\<exists>i<MAX_INODES. bad_pointer_findings i (inode_at (contents fp1) i) \<noteq> []),
           [] @ concat (map (\<lambda>i. bad_pointer_findings i (inode_at (contents fp1) i)) [0..<MAX_INODES]))"
    by blast
  from checkBadBlocks_fold_metadata [OF r(2) order_refl, of b False "[]"]
  obtain fp2' buf2' where
    f2: "fold checkBadBlocks_body [0..<MAX_INODES] (fp2, b, False, []) =
          (fp2', buf2',
           False \<or> (\<exists>i<MAX_INODES. bad_pointer_findings i (inode_at (contents fp2) i) \<noteq> []),
           [] @ concat (map (\<lambda>i. bad_pointer_findings i (inode_at (contents fp2) i)) [0..<MAX_INODES]))"
    by blast
  have h: "\<And>i. i < MAX_INODES \<Longrightarrow>
          bad_pointer_findings i (inode_at (contents fp1) i) =
          bad_pointer_findings i (inode_at (contents fp2) i)"
    by (simp add: same_metadata_inode [OF assms])
  have m: "map (\<lambda>i. bad_pointer_findings i (inode_at (contents fp1) i)) [0..<MAX_INODES] =
           map (\<lambda>i. bad_pointer_findings i (inode_at (contents fp2) i)) [0..<MAX_INODES]"
    by (simp add: h)
  have ex: "(\<exists>i<MAX_INODES. bad_pointer_findings i (inode_at (contents fp1) i) \<noteq> []) =
            (\<exists>i<MAX_INODES. bad_pointer_findings i (inode_at (contents fp2) i) \<noteq> [])"
    using h by auto
  show ?thesis
    unfolding checkBadBlocks_def f1 f2 m ex by simp
qed

text \<open>
  C10. The checker reads no block of the data region: for two images that hold blocks 0
  to 7 in full and agree on them, whatever they hold from block 8 on, the whole outcome
  of the run, standard output, error output and exit status, is the same.
\<close>

theorem main_ignores_data_region:
  assumes "fsA path = Inr (imgA, True)" "fsB path = Inr (imgB, True)"
    and "DATA_BLOCK_START * BLOCK_SIZE \<le> length imgA"
    and "DATA_BLOCK_START * BLOCK_SIZE \<le> length imgB"
    and "take (DATA_BLOCK_START * BLOCK_SIZE) imgA = take (DATA_BLOCK_START * BLOCK_SIZE) imgB"
  shows "main [prog, path] fsA uninit = main [prog, path] fsB uninit"
proof -
  define fpA where "fpA = \<lparr>contents = imgA, pos = 0, seekable = True\<rparr>"
  define fpB where "fpB = \<lparr>contents = imgB, pos = 0, seekable = True\<rparr>"
  have oA: "fopen fsA path = Inr fpA" by (simp add: fopen_def assms(1) fpA_def)
  have oB: "fopen fsB path = Inr fpB" by (simp add: fopen_def assms(2) fpB_def)
  have s0: "same_metadata fpA fpB"
    using assms(3,4,5) by (simp add: same_metadata_def metadata_readable_def fpA_def fpB_def)
  define A1 where "A1 = readSuperblock fpA (uninit 0)"
  define B1 where "B1 = readSuperblock fpB (uninit 0)"
  from readSuperblock_same [OF s0, of "uninit 0"]
  have e1: "snd A1 = snd B1" and s1: "same_metadata (fst A1) (fst B1)"
    by (simp_all add: A1_def B1_def)
  define A2 where
    "A2 = loadBitmap (fst A1) (int INODE_BITMAP_BLOCK_NO) (inodeBitmap globals0) MAX_INODES (uninit 1)"
  define B2 where
    "B2 = loadBitmap (fst B1) (int INODE_BITMAP_BLOCK_NO) (inodeBitmap globals0) MAX_INODES (uninit 1)"
  have k1: "INODE_BITMAP_BLOCK_NO < DATA_BLOCK_START" by (simp add: layout_defs)
  from loadBitmap_same [OF s1 k1]
  have e2: "snd A2 = snd B2" and s2: "same_metadata (fst A2) (fst B2)"
    by (simp_all add: A2_def B2_def)
  define A3 where
    "A3 = loadBitmap (fst A2) (int DATA_BITMAP_BLOCK_NO) (dataBitmap globals0) MAX_DATA_BLOCKS (uninit 2)"
  define B3 where
    "B3 = loadBitmap (fst B2) (int DATA_BITMAP_BLOCK_NO) (dataBitmap globals0) MAX_DATA_BLOCKS (uninit 2)"
  have k2: "DATA_BITMAP_BLOCK_NO < DATA_BLOCK_START" by (simp add: layout_defs)
  from loadBitmap_same [OF s2 k2]
  have e3: "snd A3 = snd B3" and s3: "same_metadata (fst A3) (fst B3)"
    by (simp_all add: A3_def B3_def)
  define g where "g = globals0\<lparr>inodeBitmap := snd A2, dataBitmap := snd A3\<rparr>"
  define A4 where "A4 = checkInodes (fst A3) (uninit 3) g"
  define B4 where "B4 = checkInodes (fst B3) (uninit 3) g"
  from checkInodes_same [OF s3]
  have e4: "snd (snd A4) = snd (snd B4)" and s4: "same_metadata (fst A4) (fst B4)"
    by (simp_all add: A4_def B4_def)
  from checkBadBlocks_same [OF s4]
  have e5: "snd (checkBadBlocks (fst A4) (uninit 4)) = snd (checkBadBlocks (fst B4) (uninit 4))" .
  have mA: "main [prog, path] fsA uninit =
      \<lparr>exit_code = EXIT_SUCCESS,
       stdout =
         snd (snd A1) @ [''Superblock validation completed.\<newline>''] @
         [''Bitmaps loaded successfully.\<newline>''] @
         snd (snd (snd A4)) @ [''Inode checks completed.\<newline>''] @
         checkInodeBitmap (fst (snd (snd A4))) @ checkDataBitmap (fst (snd (snd A4))) @
         [''Bitmap consistency checks completed.\<newline>''] @
         checkDuplicateBlocks (fst (snd (snd A4))) @ snd (checkBadBlocks (fst A4) (uninit 4)) @
         [''Block reference checks completed.\<newline>''],
       stderr = []\<rparr>"
    by (simp add: main_def oA case_prod_beta Let_def A1_def A2_def A3_def A4_def g_def)
  have mB: "main [prog, path] fsB uninit =
      \<lparr>exit_code = EXIT_SUCCESS,
       stdout =
         snd (snd B1) @ [''Superblock validation completed.\<newline>''] @
         [''Bitmaps loaded successfully.\<newline>''] @
         snd (snd (snd B4)) @ [''Inode checks completed.\<newline>''] @
         checkInodeBitmap (fst (snd (snd B4))) @ checkDataBitmap (fst (snd (snd B4))) @
         [''Bitmap consistency checks completed.\<newline>''] @
         checkDuplicateBlocks (fst (snd (snd B4))) @ snd (checkBadBlocks (fst B4) (uninit 4)) @
         [''Block reference checks completed.\<newline>''],
       stderr = []\<rparr>"
    by (simp add: main_def oB case_prod_beta Let_def B1_def B2_def B3_def B4_def g_def e2 e3)
  show ?thesis
    unfolding mA mB by (simp only: e1 e4 e5)
qed

lemma length_image_shared_block: "length image_shared_block = 32768"
  by (simp add: image_shared_block_def)

theorem main_ignores_data_region_witness:
  "fs_data_zeros ''vsfs.img'' = Inr (image_shared_block @ replicate (56 * 4096) 0, True) \<and>
   fs_data_ones ''vsfs.img'' = Inr (image_shared_block @ replicate (56 * 4096) 0xFF, True) \<and>
   image_shared_block @ replicate (56 * 4096) 0 \<noteq> image_shared_block @ replicate (56 * 4096) 0xFF \<and>
   main [''fsck'', ''vsfs.img''] fs_data_zeros uninit_AA =
   main [''fsck'', ''vsfs.img''] fs_data_ones uninit_AA"
proof -
  have a: "fs_data_zeros ''vsfs.img'' = Inr (image_shared_block @ replicate (56 * 4096) 0, True)"
    by (simp add: fs_data_zeros_def)
  have b: "fs_data_ones ''vsfs.img'' = Inr (image_shared_block @ replicate (56 * 4096) 0xFF, True)"
    by (simp add: fs_data_ones_def)
  have c: "DATA_BLOCK_START * BLOCK_SIZE \<le> length (image_shared_block @ replicate (56 * 4096) 0)"
    by (simp add: length_image_shared_block layout_defs)
  have d: "DATA_BLOCK_START * BLOCK_SIZE \<le> length (image_shared_block @ replicate (56 * 4096) 0xFF)"
    by (simp add: length_image_shared_block layout_defs)
  have e: "take (DATA_BLOCK_START * BLOCK_SIZE) (image_shared_block @ replicate (56 * 4096) 0) =
           take (DATA_BLOCK_START * BLOCK_SIZE) (image_shared_block @ replicate (56 * 4096) 0xFF)"
    by (simp add: length_image_shared_block layout_defs)
  have "replicate (56 * 4096) (0 :: byte) \<noteq> replicate (56 * 4096) 0xFF"
    by (simp add: replicate_eq_replicate)
  then have f: "image_shared_block @ replicate (56 * 4096) 0 \<noteq>
                image_shared_block @ replicate (56 * 4096) 0xFF" by simp
  from main_ignores_data_region [where fsA = fs_data_zeros and fsB = fs_data_ones
      and path = "''vsfs.img''" and prog = "''fsck''" and uninit = uninit_AA, OF a b c d e] a b f
  show ?thesis by simp
qed

section \<open>The order of Pass 2 and Pass 3 in the output\<close>

lemma lines_before_append:
  "lines_before P Q (xs @ ys) =
     (lines_before P Q xs \<and> lines_before P Q ys \<and> \<not> (list_ex Q xs \<and> list_ex P ys))"
  by (induction xs) auto

lemma lines_before_no_Q: "\<not> list_ex Q xs \<Longrightarrow> lines_before P Q xs"
  by (induction xs) auto

lemma lines_before_no_P: "\<not> list_ex P xs \<Longrightarrow> lines_before P Q xs"
  by (induction xs) auto

lemma lines_before_split:
  assumes "\<not> list_ex Q xs" "\<not> list_ex P ys"
  shows "lines_before P Q (xs @ ys)"
  using assms by (simp add: lines_before_append lines_before_no_Q lines_before_no_P)

lemma decimal_small: "n < 10 \<Longrightarrow> decimal n = [''0123456789'' ! n]"
  by (simp add: decimal.simps)

lemma digit_char: "k < 10 \<Longrightarrow> is_digit (''0123456789'' ! k)"
  unfolding is_digit_def by (intro nth_mem) simp

lemma decimal_digits: "x \<in> set (decimal n) \<Longrightarrow> is_digit x"
proof (induction n arbitrary: x rule: decimal.induct)
  case (1 n)
  show ?case
  proof (cases "n < 10")
    case True
    then have "decimal n = [''0123456789'' ! n]" by (rule decimal_small)
    with 1(2) have "x = ''0123456789'' ! n" by simp
    with True show ?thesis by (simp only: digit_char)
  next
    case False
    then have "decimal n = decimal (n div 10) @ [''0123456789'' ! (n mod 10)]"
      by (subst decimal.simps) simp
    with 1(2) have "x \<in> set (decimal (n div 10)) \<or> x = ''0123456789'' ! (n mod 10)"
      by auto
    then show ?thesis
    proof
      assume "x \<in> set (decimal (n div 10))"
      with False show ?thesis by (rule 1(1))
    next
      assume "x = ''0123456789'' ! (n mod 10)"
      then show ?thesis by (simp only: digit_char [of "n mod 10", simplified])
    qed
  qed
qed

lemma dropWhile_decimal:
  "\<not> is_digit c \<Longrightarrow> dropWhile is_digit (decimal n @ c # rest) = c # rest"
  by (simp add: dropWhile_append2 decimal_digits)

lemma space_not_digit: "\<not> is_digit CHR '' ''"
  by (simp add: is_digit_def)

text \<open>No line of the superblock validation, of the scan or of Pass 3 has the shape of a Pass 2 finding.\<close>


text \<open>No line of the superblock validation, of the scan or of Pass 3 has the shape of a Pass 2 finding.\<close>

lemma readSuperblock_no_pass2:
  "\<not> list_ex is_pass2_finding (snd (snd (readSuperblock fp b0)))"
  by (simp add: readSuperblock_def case_prod_beta Let_def is_pass2_finding_def)

lemma checkInodes_no_pass2:
  "\<not> list_ex is_pass2_finding (snd (snd (snd (checkInodes fp b1 g))))"
  unfolding checkInodes_def
proof (rule fold_invariant [where P = "\<lambda>s. \<not> list_ex is_pass2_finding (snd (snd (snd s)))"])
  show "\<not> list_ex is_pass2_finding (snd (snd (snd (fp, b1, g, []))))" by simp
next
  fix x and s :: "FILE \<times> byte list \<times> globals \<times> string list"
  assume "\<not> list_ex is_pass2_finding (snd (snd (snd s)))"
  then show "\<not> list_ex is_pass2_finding (snd (snd (snd (checkInodes_body x s))))"
    by (cases s)
      (simp add: checkInodes_body_def checkInodes_inode_def case_prod_beta Let_def
        is_pass2_finding_def)
qed

lemma checkInodeBitmap_no_pass2: "\<not> list_ex is_pass2_finding (checkInodeBitmap g)"
proof -
  have "\<not> list_ex is_pass2_finding
          (snd (fold (checkInodeBitmap_body g) [0..<MAX_INODES] (0, [])))"
    by (rule fold_invariant [where P = "\<lambda>s. \<not> list_ex is_pass2_finding (snd s)"])
      (auto simp: checkInodeBitmap_body_def is_pass2_finding_def split: if_splits prod.splits)
  then show ?thesis
    by (simp add: checkInodeBitmap_def case_prod_beta is_pass2_finding_def)
qed

text \<open>No line of Pass 2, Pass 4 or Pass 5 has the shape of a Pass 3 finding.\<close>

lemma checkDataBitmap_no_pass3: "\<not> list_ex is_pass3_finding (checkDataBitmap g)"
  unfolding checkDataBitmap_def
  by (rule fold_invariant) (auto simp: checkDataBitmap_body_def is_pass3_finding_def)

lemma checkDuplicateBlocks_no_pass3: "\<not> list_ex is_pass3_finding (checkDuplicateBlocks g)"
proof -
  have "\<not> list_ex is_pass3_finding
          (snd (fold (checkDuplicateBlocks_body g) [0..<MAX_DATA_BLOCKS] (False, [])))"
    by (rule fold_invariant [where P = "\<lambda>s. \<not> list_ex is_pass3_finding (snd s)"])
      (auto simp: checkDuplicateBlocks_body_def is_pass3_finding_def split: if_splits)
  then show ?thesis
    by (simp add: checkDuplicateBlocks_def case_prod_beta is_pass3_finding_def)
qed

lemma checkBadBlocks_inode_no_pass3:
  assumes "\<not> list_ex is_pass3_finding out"
  shows "\<not> list_ex is_pass3_finding (snd (checkBadBlocks_inode i inode (b, out)))"
  using assms
  by (simp add: checkBadBlocks_inode_def Let_def is_pass3_finding_def
      dropWhile_decimal space_not_digit)

lemma checkBadBlocks_no_pass3: "\<not> list_ex is_pass3_finding (snd (checkBadBlocks fp b2))"
proof -
  have "\<not> list_ex is_pass3_finding
          (snd (snd (snd (fold checkBadBlocks_body [0..<MAX_INODES] (fp, b2, False, [])))))"
  proof (rule fold_invariant [where P = "\<lambda>s. \<not> list_ex is_pass3_finding (snd (snd (snd s)))"])
    show "\<not> list_ex is_pass3_finding (snd (snd (snd (fp, b2, False, []))))" by simp
  next
    fix x and s :: "FILE \<times> byte list \<times> bool \<times> string list"
    assume a: "\<not> list_ex is_pass3_finding (snd (snd (snd s)))"
    obtain fp' buf b out where s: "s = (fp', buf, b, out)" by (cases s)
    from a s have "\<not> list_ex is_pass3_finding out" by simp
    from checkBadBlocks_inode_no_pass3 [OF this]
    show "\<not> list_ex is_pass3_finding (snd (snd (snd (checkBadBlocks_body x s))))"
      by (simp add: s checkBadBlocks_body_def case_prod_beta Let_def)
  qed
  then show ?thesis
    by (simp add: checkBadBlocks_def case_prod_beta is_pass3_finding_def)
qed

lemma lines_before_run:
  assumes "\<not> list_ex Q x1" "\<not> Q b1" "\<not> Q b2" "\<not> list_ex Q x2" "\<not> Q b3" "\<not> list_ex Q x3"
    and "\<not> list_ex P x4" "\<not> P b4" "\<not> list_ex P x5" "\<not> list_ex P x6" "\<not> P b5"
  shows "lines_before P Q (x1 @ [b1] @ [b2] @ x2 @ [b3] @ x3 @ x4 @ [b4] @ x5 @ x6 @ [b5])"
proof -
  have "lines_before P Q ((x1 @ [b1] @ [b2] @ x2 @ [b3] @ x3) @ (x4 @ [b4] @ x5 @ x6 @ [b5]))"
    by (rule lines_before_split) (simp_all add: assms)
  then show ?thesis by simp
qed

lemma banners_shape:
  "\<not> is_pass2_finding ''Superblock validation completed.\<newline>''"
  "\<not> is_pass2_finding ''Bitmaps loaded successfully.\<newline>''"
  "\<not> is_pass2_finding ''Inode checks completed.\<newline>''"
  "\<not> is_pass3_finding ''Bitmap consistency checks completed.\<newline>''"
  "\<not> is_pass3_finding ''Block reference checks completed.\<newline>''"
  by (simp_all add: is_pass2_finding_def is_pass3_finding_def)

lemma main_stdout_failed:
  assumes "length argv \<noteq> 2 \<or> isl (fopen fs (argv ! 1))"
  shows "stdout (main argv fs uninit) = []"
proof (cases "length argv \<noteq> 2")
  case True
  then show ?thesis by (simp add: main_def)
next
  case False
  with assms obtain err where "fopen fs (argv ! 1) = Inl err"
    by (cases "fopen fs (argv ! 1)") auto
  with False show ?thesis by (simp add: main_def)
qed

lemma main_stdout_opened:
  assumes "length argv = 2" "fopen fs (argv ! 1) = Inr fp"
  shows "stdout (main argv fs uninit) =
      (let R = readSuperblock fp (uninit 0);
           L1 = loadBitmap (fst R) (int INODE_BITMAP_BLOCK_NO) (inodeBitmap globals0) MAX_INODES
                  (uninit 1);
           L2 = loadBitmap (fst L1) (int DATA_BITMAP_BLOCK_NO) (dataBitmap globals0)
                  MAX_DATA_BLOCKS (uninit 2);
           C = checkInodes (fst L2) (uninit 3)
                 (globals0\<lparr>inodeBitmap := snd L1, dataBitmap := snd L2\<rparr>)
       in snd (snd R) @ [''Superblock validation completed.\<newline>''] @
          [''Bitmaps loaded successfully.\<newline>''] @
          snd (snd (snd C)) @ [''Inode checks completed.\<newline>''] @
          checkInodeBitmap (fst (snd (snd C))) @ checkDataBitmap (fst (snd (snd C))) @
          [''Bitmap consistency checks completed.\<newline>''] @
          checkDuplicateBlocks (fst (snd (snd C))) @ snd (checkBadBlocks (fst C) (uninit 4)) @
          [''Block reference checks completed.\<newline>''])"
  unfolding main_def using assms by (simp add: case_prod_beta Let_def)

text \<open>
  C6, as amended. In the output of a run the findings of the inode-bitmap reconciliation
  (Pass 3) all come before the findings of the data-bitmap reconciliation (Pass 2):
  \<open>main\<close> calls \<open>checkInodeBitmap\<close> first and \<open>checkDataBitmap\<close> second.
\<close>

theorem inode_bitmap_findings_first:
  "lines_before is_pass3_finding is_pass2_finding (stdout (main argv fs uninit))"
proof (cases "length argv \<noteq> 2 \<or> isl (fopen fs (argv ! 1))")
  case True
  then show ?thesis by (simp add: main_stdout_failed)
next
  case False
  then obtain fp where o: "length argv = 2" "fopen fs (argv ! 1) = Inr fp"
    by (cases "fopen fs (argv ! 1)") auto
  show ?thesis
    unfolding main_stdout_opened [OF o] Let_def
    by (intro lines_before_run readSuperblock_no_pass2 checkInodes_no_pass2
        checkInodeBitmap_no_pass2 checkDataBitmap_no_pass3 checkDuplicateBlocks_no_pass3
        checkBadBlocks_no_pass3 banners_shape)
qed

lemma readBlock_keeps:
  "contents (fst (readBlock fp n buf)) = contents fp \<and>
   seekable (fst (readBlock fp n buf)) = seekable fp"
  by (simp add: readBlock_def fseek_def fread_def Let_def)

lemma readBlock_readable:
  "metadata_readable (fst (readBlock fp n buf)) = metadata_readable fp"
  by (simp add: metadata_readable_def readBlock_keeps)

lemma readSuperblock_keeps:
  "contents (fst (readSuperblock fp b)) = contents fp \<and>
   metadata_readable (fst (readSuperblock fp b)) = metadata_readable fp"
  by (simp add: readSuperblock_def case_prod_beta Let_def readBlock_keeps readBlock_readable)

lemma loadBitmap_keeps:
  "contents (fst (loadBitmap fp n bitmap count b)) = contents fp \<and>
   metadata_readable (fst (loadBitmap fp n bitmap count b)) = metadata_readable fp"
  by (simp add: loadBitmap_def case_prod_beta readBlock_keeps readBlock_readable)

lemma inodeBitmap_step:
  "inodeBitmap (fst (checkInodes_inode i ino (g, out))) = inodeBitmap g"
  by (simp add: checkInodes_inode_def Let_def)

lemma inodeBitmap_fold:
  "inodeBitmap (fst (fold (\<lambda>i. checkInodes_inode i (f i)) xs (g, out))) = inodeBitmap g"
proof (induction xs arbitrary: g out)
  case Nil
  then show ?case by simp
next
  case (Cons x xs)
  obtain g' out' where s: "checkInodes_inode x (f x) (g, out) = (g', out')"
    by (cases "checkInodes_inode x (f x) (g, out)")
  from inodeBitmap_step [of x "f x" g out] s have "inodeBitmap g' = inodeBitmap g" by simp
  with Cons [of g' out'] show ?case by (simp add: s)
qed

lemma checkInodeBitmap_body_snd:
  "snd (checkInodeBitmap_body g i (c, out)) =
     out @
     (if inodeBitmap g ! i \<and> \<not> inodeUsed g ! i
      then [''ERROR: Inode '' @ decimal i @ '' marked used but not actually used.\<newline>'']
      else []) @
     (if \<not> inodeBitmap g ! i \<and> inodeUsed g ! i
      then [''ERROR: Inode '' @ decimal i @ '' is used but not marked in bitmap.\<newline>'']
      else [])"
  by (simp add: checkInodeBitmap_body_def)

lemma fold_snd_print:
  assumes "\<And>i c out. snd (f i (c, out)) = out @ h i"
  shows "snd (fold f xs (c, out)) = out @ concat (map h xs)"
proof (induction xs arbitrary: c out)
  case Nil
  then show ?case by simp
next
  case (Cons x xs)
  have "f x (c, out) = (fst (f x (c, out)), out @ h x)"
    using assms [of x c out] by (simp add: prod_eq_iff)
  then have "fold f (x # xs) (c, out) = fold f xs (fst (f x (c, out)), out @ h x)"
    by simp
  then show ?case by (simp add: Cons)
qed

lemma checkInodeBitmap_unmarked:
  assumes "j < MAX_INODES" "\<not> inodeBitmap g ! j" "inodeUsed g ! j"
  shows "''ERROR: Inode '' @ decimal j @ '' is used but not marked in bitmap.\<newline>''
           \<in> set (checkInodeBitmap g)"
proof -
  let ?h = "\<lambda>i. (if inodeBitmap g ! i \<and> \<not> inodeUsed g ! i
      then [''ERROR: Inode '' @ decimal i @ '' marked used but not actually used.\<newline>'']
      else []) @
     (if \<not> inodeBitmap g ! i \<and> inodeUsed g ! i
      then [''ERROR: Inode '' @ decimal i @ '' is used but not marked in bitmap.\<newline>'']
      else [])"
  have out: "snd (fold (checkInodeBitmap_body g) [0..<MAX_INODES] (0, [])) =
        [] @ concat (map ?h [0..<MAX_INODES])"
    by (rule fold_snd_print) (rule checkInodeBitmap_body_snd)
  have "''ERROR: Inode '' @ decimal j @ '' is used but not marked in bitmap.\<newline>'' \<in> set (?h j)"
    using assms(2,3) by simp
  then have "''ERROR: Inode '' @ decimal j @ '' is used but not marked in bitmap.\<newline>''
           \<in> set (snd (fold (checkInodeBitmap_body g) [0..<MAX_INODES] (0, [])))"
    unfolding out using assms(1) by (auto simp del: append.simps)
  then show ?thesis
    by (simp add: checkInodeBitmap_def case_prod_beta)
qed

lemma loadBitmap_first_bit:
  assumes "metadata_readable fp" "k < DATA_BLOCK_START" "0 < count" "count \<le> length bitmap"
  shows "snd (loadBitmap fp (int k) bitmap count b) ! 0 = bit (block_of (contents fp) k ! 0) 0"
proof -
  have l: "0 < length (block_of (contents fp) k)"
    using length_block_of [OF block_complete [OF assms(2)]] assms(1)
    by (simp add: metadata_readable_def BLOCK_SIZE_def)
  have "[0..<count] = 0 # [1..<count]"
    using assms(3) by (simp add: upt_conv_Cons)
  then show ?thesis
    using l by (simp add: loadBitmap_bits [OF assms(4)] readBlock_metadata [OF assms(1,2)] nth_append)
qed

lemma scan_shared:
  assumes "same_metadata fp file_shared_block"
    and "inodeUsed g = replicate MAX_INODES False"
    and "blockRefCount g = replicate MAX_DATA_BLOCKS 0"
  shows "inodeUsed (fst (snd (snd (checkInodes fp b g)))) ! 0 \<and>
         inodeBitmap (fst (snd (snd (checkInodes fp b g)))) = inodeBitmap g \<and>
         blockRefCount (fst (snd (snd (checkInodes fp b g)))) ! 10 = 2"
proof -
  have c: "contents file_shared_block = image_shared_block" by (simp add: file_shared_block_def)
  from checkInodes_same [OF assms(1), of b g]
  have e: "fst (snd (snd (checkInodes fp b g))) = fst (snd (snd (checkInodes file_shared_block b g)))"
    by simp
  from checkInodes_metadata [OF file_shared_block_readable, of b g]
  have f: "fst (snd (snd (checkInodes file_shared_block b g))) =
        fst (fold (\<lambda>i. checkInodes_inode i (inode_at image_shared_block i)) [0..<MAX_INODES] (g, []))"
    by (auto simp: c)
  have m: "0 < MAX_INODES" "10 < MAX_DATA_BLOCKS" by (simp_all add: layout_defs)
  have "inodeUsed (fst (fold (\<lambda>i. checkInodes_inode i (inode_at image_shared_block i))
          [0..<MAX_INODES] (g, []))) ! 0"
    using inodeUsed_fold [of "inode_at image_shared_block" MAX_INODES g "[]"] m(1)
    by (simp add: assms(2) inode_at_shared_0)
  moreover have "blockRefCount (fst (fold (\<lambda>i. checkInodes_inode i (inode_at image_shared_block i))
          [0..<MAX_INODES] (g, []))) ! 10 = 2"
    using blockRefCount_fold [OF m(2), of "inode_at image_shared_block" MAX_INODES g "[]"] m(2)
    by (simp add: assms(3) shared_references)
  ultimately show ?thesis
    unfolding e f by (simp add: inodeBitmap_fold)
qed

lemma lines_before_violated:
  assumes "list_ex Q xs" "list_ex P ys"
  shows "\<not> lines_before P Q (pre @ xs @ ys @ post)"
  using assms by (simp add: lines_before_append)

lemma dataBlockUsed_step:
  "dataBlockUsed (fst (checkInodes_inode i ino (g, out))) =
     (if 0 < links ino \<and> dtime ino = 0 \<and> unat (direct ino) < MAX_DATA_BLOCKS
      then (dataBlockUsed g)[unat (direct ino) := True]
      else dataBlockUsed g)"
  by (simp add: checkInodes_inode_def Let_def)

lemma dataBitmap_step:
  "dataBitmap (fst (checkInodes_inode i ino (g, out))) = dataBitmap g"
  by (simp add: checkInodes_inode_def Let_def)

lemma dataBitmap_fold:
  "dataBitmap (fst (fold (\<lambda>i. checkInodes_inode i (f i)) xs (g, out))) = dataBitmap g"
proof (induction xs arbitrary: g out)
  case Nil
  then show ?case by simp
next
  case (Cons x xs)
  obtain g' out' where s: "checkInodes_inode x (f x) (g, out) = (g', out')"
    by (cases "checkInodes_inode x (f x) (g, out)")
  from dataBitmap_step [of x "f x" g out] s have "dataBitmap g' = dataBitmap g" by simp
  with Cons [of g' out'] show ?case by (simp add: s)
qed

lemma dataBlockUsed_fold:
  assumes "b < MAX_DATA_BLOCKS"
  shows "length (dataBlockUsed (fst (fold (\<lambda>i. checkInodes_inode i (f i)) [0..<n] (g, out)))) =
           length (dataBlockUsed g) \<and>
         (b < length (dataBlockUsed g) \<longrightarrow>
          dataBlockUsed (fst (fold (\<lambda>i. checkInodes_inode i (f i)) [0..<n] (g, out))) ! b =
            (dataBlockUsed g ! b \<or>
             (\<exists>i<n. 0 < links (f i) \<and> dtime (f i) = 0 \<and> unat (direct (f i)) = b)))"
proof (induction n)
  case 0
  then show ?case by simp
next
  case (Suc n)
  obtain g' out' where p: "fold (\<lambda>i. checkInodes_inode i (f i)) [0..<n] (g, out) = (g', out')"
    by (cases "fold (\<lambda>i. checkInodes_inode i (f i)) [0..<n] (g, out)")
  from Suc p have l: "length (dataBlockUsed g') = length (dataBlockUsed g)"
    and v: "b < length (dataBlockUsed g) \<longrightarrow> dataBlockUsed g' ! b =
            (dataBlockUsed g ! b \<or>
             (\<exists>i<n. 0 < links (f i) \<and> dtime (f i) = 0 \<and> unat (direct (f i)) = b))"
    by auto
  show ?case
    using l v assms
    by (auto simp: p dataBlockUsed_step nth_list_update_if less_Suc_eq)
qed

lemma checkDataBitmap_unmarked:
  assumes "b < MAX_DATA_BLOCKS" "\<not> dataBitmap g ! b" "dataBlockUsed g ! b"
  shows "''ERROR: Data block '' @ decimal b @ '' is used but not marked in bitmap.\<newline>''
           \<in> set (checkDataBitmap g)"
proof -
  have "''ERROR: Data block '' @ decimal b @ '' is used but not marked in bitmap.\<newline>''
          \<in> set (checkDataBitmap_body g b [])"
    using assms(2,3) by (simp add: checkDataBitmap_body_def)
  then show ?thesis
    unfolding checkDataBitmap_concat using assms(1) by (auto simp del: append.simps)
qed

lemma loadBitmap_nth:
  assumes "metadata_readable fp" "k < DATA_BLOCK_START" "i < count" "count \<le> length bitmap"
    and "i div 8 < BLOCK_SIZE"
  shows "snd (loadBitmap fp (int k) bitmap count b) ! i =
           bit (block_of (contents fp) k ! (i div 8)) (i mod 8)"
proof -
  have l: "length (block_of (contents fp) k) = BLOCK_SIZE"
    using length_block_of [OF block_complete [OF assms(2)]] assms(1)
    by (simp add: metadata_readable_def)
  have "snd (loadBitmap fp (int k) bitmap count b) ! i =
        map (\<lambda>i. bit (snd (readBlock fp (int k) b) ! (i div 8)) (i mod 8)) [0..<count] ! i"
    using assms(3) by (simp add: loadBitmap_bits [OF assms(4)] nth_append)
  also have "\<dots> = bit (snd (readBlock fp (int k) b) ! (i div 8)) (i mod 8)"
    using assms(3) by simp
  also have "\<dots> = bit (block_of (contents fp) k ! (i div 8)) (i mod 8)"
    using l assms(5) by (simp add: readBlock_metadata [OF assms(1,2)] nth_append)
  finally show ?thesis .
qed

lemma scan_shared_data:
  assumes "same_metadata fp file_shared_block"
    and "dataBlockUsed g = replicate MAX_DATA_BLOCKS False"
  shows "dataBlockUsed (fst (snd (snd (checkInodes fp b g)))) ! 10 \<and>
         dataBitmap (fst (snd (snd (checkInodes fp b g)))) = dataBitmap g"
proof -
  have c: "contents file_shared_block = image_shared_block" by (simp add: file_shared_block_def)
  from checkInodes_same [OF assms(1), of b g]
  have e: "fst (snd (snd (checkInodes fp b g))) = fst (snd (snd (checkInodes file_shared_block b g)))"
    by simp
  from checkInodes_metadata [OF file_shared_block_readable, of b g]
  have f: "fst (snd (snd (checkInodes file_shared_block b g))) =
        fst (fold (\<lambda>i. checkInodes_inode i (inode_at image_shared_block i)) [0..<MAX_INODES] (g, []))"
    by (auto simp: c)
  have m: "0 < MAX_INODES" "10 < MAX_DATA_BLOCKS" by (simp_all add: layout_defs)
  have "\<exists>i<MAX_INODES. 0 < links (inode_at image_shared_block i) \<and>
          dtime (inode_at image_shared_block i) = 0 \<and>
          unat (direct (inode_at image_shared_block i)) = 10"
    using m(1) by (intro exI [of _ 0]) (simp add: inode_at_shared_0)
  then have "dataBlockUsed (fst (fold (\<lambda>i. checkInodes_inode i (inode_at image_shared_block i))
          [0..<MAX_INODES] (g, []))) ! 10"
    using dataBlockUsed_fold [OF m(2), of "inode_at image_shared_block" MAX_INODES g "[]"] m(2)
    by (simp add: assms(2))
  then show ?thesis
    unfolding e f by (simp add: dataBitmap_fold)
qed

lemma run_on_shared_image:
  "\<exists>pre xs ys post.
     stdout (main [''fsck'', ''vsfs.img''] fs_data_zeros uninit_AA) = pre @ xs @ ys @ post \<and>
     ''ERROR: Inode 0 is used but not marked in bitmap.\<newline>'' \<in> set xs \<and>
     ''ERROR: Data block 10 is used but not marked in bitmap.\<newline>'' \<in> set ys \<and>
     ''ERROR: Data block 10 is referenced by multiple inodes.\<newline>'' \<in> set ys"
proof -
  define fp where
    "fp = \<lparr>contents = image_shared_block @ replicate (56 * 4096) 0, pos = 0, seekable = True\<rparr>"
  have o: "length [''fsck'', ''vsfs.img''] = 2"
    "fopen fs_data_zeros ([''fsck'', ''vsfs.img''] ! 1) = Inr fp"
    by (simp_all add: fopen_def fs_data_zeros_def fp_def)
  have s0: "same_metadata fp file_shared_block"
    using file_shared_block_readable
    by (simp add: same_metadata_def metadata_readable_def fp_def file_shared_block_def
        length_image_shared_block layout_defs)
  then have r0: "metadata_readable fp" by (simp add: same_metadata_def)
  define R where "R = readSuperblock fp (uninit_AA 0)"
  define L1 where
    "L1 = loadBitmap (fst R) (int INODE_BITMAP_BLOCK_NO) (inodeBitmap globals0) MAX_INODES
            (uninit_AA 1)"
  define L2 where
    "L2 = loadBitmap (fst L1) (int DATA_BITMAP_BLOCK_NO) (dataBitmap globals0) MAX_DATA_BLOCKS
            (uninit_AA 2)"
  define g where "g = globals0\<lparr>inodeBitmap := snd L1, dataBitmap := snd L2\<rparr>"
  define C where "C = checkInodes (fst L2) (uninit_AA 3) g"
  define g' where "g' = fst (snd (snd C))"
  have rR: "metadata_readable (fst R)" and cR: "contents (fst R) = contents fp"
    using r0 by (simp_all add: R_def readSuperblock_keeps)
  have rL1: "metadata_readable (fst L1)" and cL1: "contents (fst L1) = contents fp"
    using rR cR by (simp_all add: L1_def loadBitmap_keeps)
  have cL2: "contents (fst L2) = contents fp" and rL2: "metadata_readable (fst L2)"
    using rL1 cL1 by (simp_all add: L2_def loadBitmap_keeps)
  have s2: "same_metadata (fst L2) file_shared_block"
    using s0 rL2 cL2 by (simp add: same_metadata_def)
  have gi: "inodeUsed g = replicate MAX_INODES False"
    and gb: "blockRefCount g = replicate MAX_DATA_BLOCKS 0"
    and gd: "dataBlockUsed g = replicate MAX_DATA_BLOCKS False"
    by (simp_all add: g_def globals0_def)
  from scan_shared [OF s2 gi gb, of "uninit_AA 3"]
  have u: "inodeUsed g' ! 0" and ib: "inodeBitmap g' = snd L1" and rc: "blockRefCount g' ! 10 = 2"
    by (simp_all add: g'_def C_def g_def)
  from scan_shared_data [OF s2 gd, of "uninit_AA 3"]
  have du: "dataBlockUsed g' ! 10" and db: "dataBitmap g' = snd L2"
    by (simp_all add: g'_def C_def g_def)
  have k: "INODE_BITMAP_BLOCK_NO < DATA_BLOCK_START" "0 < MAX_INODES"
    "MAX_INODES \<le> length (inodeBitmap globals0)" "10 < MAX_DATA_BLOCKS"
    "DATA_BITMAP_BLOCK_NO < DATA_BLOCK_START"
    "MAX_DATA_BLOCKS \<le> length (dataBitmap globals0)" "10 div 8 < BLOCK_SIZE"
    by (simp_all add: layout_defs globals0_def)
  have "block_of (contents fp) INODE_BITMAP_BLOCK_NO ! 0 = 0"
    by (simp add: block_of_def fp_def image_shared_block_def layout_defs nth_append)
  with loadBitmap_first_bit [OF rR k(1,2,3), of "uninit_AA 1"]
  have "\<not> snd L1 ! 0" by (simp add: L1_def cR)
  with ib have nb: "\<not> inodeBitmap g' ! 0" by simp
  have "block_of (contents fp) DATA_BITMAP_BLOCK_NO ! (10 div 8) = 0"
    by (simp add: block_of_def fp_def image_shared_block_def layout_defs nth_append)
  with loadBitmap_nth [OF rL1 k(5,4,6,7), of "uninit_AA 2"]
  have "\<not> snd L2 ! 10" by (simp add: L2_def cL1)
  with db have nd: "\<not> dataBitmap g' ! 10" by simp
  from checkInodeBitmap_unmarked [OF k(2) nb u]
  have x: "''ERROR: Inode 0 is used but not marked in bitmap.\<newline>'' \<in> set (checkInodeBitmap g')"
    by (simp add: decimal_0)
  from checkDataBitmap_unmarked [OF k(4) nd du]
  have y: "''ERROR: Data block 10 is used but not marked in bitmap.\<newline>''
             \<in> set (checkDataBitmap g')"
    by (simp add: decimal_10)
  from checkDataBitmap_duplicate [OF k(4), of g'] rc
  have z: "''ERROR: Data block 10 is referenced by multiple inodes.\<newline>''
             \<in> set (checkDataBitmap g')"
    by (simp add: decimal_10)
  have "stdout (main [''fsck'', ''vsfs.img''] fs_data_zeros uninit_AA) =
      (snd (snd R) @ [''Superblock validation completed.\<newline>''] @
        [''Bitmaps loaded successfully.\<newline>''] @
        snd (snd (snd C)) @ [''Inode checks completed.\<newline>'']) @
      checkInodeBitmap g' @ checkDataBitmap g' @
      ([''Bitmap consistency checks completed.\<newline>''] @
        checkDuplicateBlocks g' @ snd (checkBadBlocks (fst C) (uninit_AA 4)) @
        [''Block reference checks completed.\<newline>''])"
    unfolding main_stdout_opened [OF o] Let_def
    by (simp add: R_def L1_def L2_def C_def g_def g'_def)
  with x y z show ?thesis by blast
qed

text \<open>Pass 4 prints no line of the two shapes that are Pass 2's own.\<close>

lemma checkDuplicateBlocks_no_pass2_own:
  "\<not> list_ex is_pass2_own_finding (checkDuplicateBlocks g)"
proof -
  have "\<not> list_ex is_pass2_own_finding
          (snd (fold (checkDuplicateBlocks_body g) [0..<MAX_DATA_BLOCKS] (False, [])))"
    by (rule fold_invariant [where P = "\<lambda>s. \<not> list_ex is_pass2_own_finding (snd s)"])
      (auto simp: checkDuplicateBlocks_body_def is_pass2_own_finding_def
        dropWhile_decimal space_not_digit split: if_splits)
  then show ?thesis
    by (simp add: checkDuplicateBlocks_def case_prod_beta is_pass2_own_finding_def)
qed

lemma shapes_of_examples:
  "is_pass3_finding ''ERROR: Inode 0 is used but not marked in bitmap.\<newline>''"
  "is_pass2_finding ''ERROR: Data block 10 is referenced by multiple inodes.\<newline>''"
  "is_pass2_own_finding ''ERROR: Data block 10 is used but not marked in bitmap.\<newline>''"
  "\<not> is_pass2_own_finding ''ERROR: Data block 10 is referenced by multiple inodes.\<newline>''"
  by (simp_all add: is_pass3_finding_def is_pass2_finding_def is_pass2_own_finding_def is_digit_def)

text \<open>
  C6, as stated, fails on the image with the shared block: the Pass 3 finding for inode 0
  is printed before the finding that block 10 is used but not marked, which only Pass 2
  prints.
\<close>

theorem data_bitmap_findings_first_counterexample:
  "\<not> lines_before is_pass2_own_finding is_pass3_finding
       (stdout (main [''fsck'', ''vsfs.img''] fs_data_zeros uninit_AA))"
proof -
  from run_on_shared_image obtain pre xs ys post where
    out: "stdout (main [''fsck'', ''vsfs.img''] fs_data_zeros uninit_AA) = pre @ xs @ ys @ post"
    and x: "''ERROR: Inode 0 is used but not marked in bitmap.\<newline>'' \<in> set xs"
    and y: "''ERROR: Data block 10 is used but not marked in bitmap.\<newline>'' \<in> set ys"
    by blast
  from x shapes_of_examples(1) have "list_ex is_pass3_finding xs"
    unfolding list_ex_iff by blast
  moreover from y shapes_of_examples(3) have "list_ex is_pass2_own_finding ys"
    unfolding list_ex_iff by blast
  ultimately show ?thesis
    unfolding out by (rule lines_before_violated)
qed

theorem inode_bitmap_findings_first_witness:
  "lines_before is_pass3_finding is_pass2_finding
     (stdout (main [''fsck'', ''vsfs.img''] fs_data_zeros uninit_AA)) \<and>
   list_ex is_pass3_finding (stdout (main [''fsck'', ''vsfs.img''] fs_data_zeros uninit_AA)) \<and>
   list_ex is_pass2_finding (stdout (main [''fsck'', ''vsfs.img''] fs_data_zeros uninit_AA))"
proof -
  from run_on_shared_image obtain pre xs ys post where
    out: "stdout (main [''fsck'', ''vsfs.img''] fs_data_zeros uninit_AA) = pre @ xs @ ys @ post"
    and x: "''ERROR: Inode 0 is used but not marked in bitmap.\<newline>'' \<in> set xs"
    and y: "''ERROR: Data block 10 is referenced by multiple inodes.\<newline>'' \<in> set ys"
    by blast
  from x shapes_of_examples(1) have "list_ex is_pass3_finding xs"
    unfolding list_ex_iff by blast
  moreover from y shapes_of_examples(2) have "list_ex is_pass2_finding ys"
    unfolding list_ex_iff by blast
  ultimately have "list_ex is_pass3_finding (pre @ xs @ ys @ post)"
    and "list_ex is_pass2_finding (pre @ xs @ ys @ post)" by simp_all
  with inode_bitmap_findings_first [of "[''fsck'', ''vsfs.img'']" fs_data_zeros uninit_AA]
  show ?thesis unfolding out by simp
qed


section \<open>A run with findings in Pass 2 and Pass 4\<close>

theorem success_lines_of_passes_witness:
  "''ERROR: Data block 10 is referenced by multiple inodes.\<newline>''
     \<in> set (checkDataBitmap globals_block10_twice) \<and>
   is_error_line ''ERROR: Data block 10 is referenced by multiple inodes.\<newline>'' \<and>
   checkDuplicateBlocks globals_block10_twice =
     filter is_error_line (checkDuplicateBlocks globals_block10_twice)"
proof -
  have k: "10 < MAX_DATA_BLOCKS" by (simp add: layout_defs)
  have "1 < blockRefCount globals_block10_twice ! 10"
    by (simp add: globals_block10_twice_def globals0_def layout_defs)
  from checkDataBitmap_duplicate [OF k this] checkDuplicateBlocks_duplicate [OF k this]
  have m: "''ERROR: Data block 10 is referenced by multiple inodes.\<newline>''
             \<in> set (checkDataBitmap globals_block10_twice)"
    and d: "''ERROR: Data block 10 is referenced by multiple inodes.\<newline>''
             \<in> set (checkDuplicateBlocks globals_block10_twice)"
    by (simp_all add: decimal_10)
  note t = success_lines_of_passes [of empty_file "uninit_AA 0" "uninit_AA 3"
      globals_block10_twice "uninit_AA 4"]
  from t have "\<forall>l\<in>set (checkDataBitmap globals_block10_twice). is_error_line l" by blast
  with m have e: "is_error_line ''ERROR: Data block 10 is referenced by multiple inodes.\<newline>''"
    by (rule bspec [rotated])
  from d e have "filter is_error_line (checkDuplicateBlocks globals_block10_twice) \<noteq> []"
    by (auto simp: filter_empty_conv)
  moreover from t have "checkDuplicateBlocks globals_block10_twice =
     (let errs = filter is_error_line (checkDuplicateBlocks globals_block10_twice)
      in if errs = [] then [''No duplicate data block references found.\<newline>''] else errs)"
    by blast
  ultimately have "checkDuplicateBlocks globals_block10_twice =
     filter is_error_line (checkDuplicateBlocks globals_block10_twice)"
    by (simp add: Let_def)
  with m e show ?thesis by blast
qed

end
